theory Spec2Isabelle
  imports Main "HOL-Library.Multiset" "HOL-Library.Log_Nat"
begin

section \<open>FooTable.Sorting: the sorting component of the table plugin\<close>

text \<open>
  A shallow embedding of \<^verbatim>\<open>src/js/components/core/FooTable.Sorting.js\<close>.
  Every method of the component is a function on an explicit table instance; a thrown
  \<^verbatim>\<open>TypeError\<close> (reading a property of \<^verbatim>\<open>null\<close> or \<^verbatim>\<open>undefined\<close>) and a rejected promise
  are the left injection of a sum, a resolved promise is the right one. The component runs on
  one thread and the model runs each promise chain to its end at once.
\<close>

subsection \<open>Values\<close>

text \<open>
  The JavaScript values that occur as cell values and as the \<^verbatim>\<open>direction\<close> argument.
  \<open>JNum n\<close> is the number \<open>n\<close>, for an integer \<open>n\<close> that is a double and lies below \<open>2 ^ 1023\<close> in
  magnitude: no fractions, no NaN and no infinities as cell values. NaN as the result of an
  operation is \<^const>\<open>None\<close>.
\<close>

datatype jsval = JUndefined | JNull | JNum int | JStr string

datatype error = TypeError

text \<open>\<^verbatim>\<open>FooTable.is.type(v, 'string')\<close>, that is \<^verbatim>\<open>typeof v === 'string'\<close>.\<close>

fun is_string :: "jsval \<Rightarrow> bool" where
  "is_string (JStr s) = True"
| "is_string v = False"

text \<open>
  \<^verbatim>\<open>String.prototype.toLowerCase\<close> on strings whose code units are below 256 (a \<^typ>\<open>char\<close> is
  one code unit): the letters A to Z and the upper-case letters of Latin-1 (0xC0 to 0xDE without
  the multiplication sign 0xD7) move up by 32, every other code unit stays.
\<close>

definition lower_char :: "char \<Rightarrow> char" where
  "lower_char c =
     (let n = (of_char c :: nat)
      in if (65 \<le> n \<and> n \<le> 90) \<or> (192 \<le> n \<and> n \<le> 222 \<and> n \<noteq> 215)
         then char_of (n + 32) else c)"

definition toLowerCase :: "string \<Rightarrow> string" where
  "toLowerCase s = map lower_char s"

text \<open>The relational comparison of two strings: by code units, a proper prefix is smaller.\<close>

fun str_lt :: "string \<Rightarrow> string \<Rightarrow> bool" where
  "str_lt [] [] = False"
| "str_lt [] (y # ys) = True"
| "str_lt (x # xs) [] = False"
| "str_lt (x # xs) (y # ys) =
     (if (of_char x :: nat) < of_char y then True
      else if (of_char y :: nat) < of_char x then False
      else str_lt xs ys)"

text \<open>
  \<^verbatim>\<open>ToNumber\<close>: \<^verbatim>\<open>undefined\<close> is NaN (\<^const>\<open>None\<close>), \<^verbatim>\<open>null\<close> is 0. How the host reads a string as a
  number is not code of this repository: it is the parameter \<open>N\<close>, with \<^const>\<open>None\<close> for NaN.
\<close>

fun ToNumber :: "(string \<Rightarrow> int option) \<Rightarrow> jsval \<Rightarrow> int option" where
  "ToNumber N JUndefined = None"
| "ToNumber N JNull = Some 0"
| "ToNumber N (JNum n) = Some n"
| "ToNumber N (JStr s) = N s"

text \<open>
  \<^verbatim>\<open>a < b\<close>: two strings are compared as strings, anything else as numbers, and a comparison
  with NaN is false.
\<close>

fun js_lt :: "(string \<Rightarrow> int option) \<Rightarrow> jsval \<Rightarrow> jsval \<Rightarrow> bool" where
  "js_lt N (JStr s) (JStr t) = str_lt s t"
| "js_lt N a b =
     (case (ToNumber N a, ToNumber N b) of
        (Some x, Some y) \<Rightarrow> x < y
      | _ \<Rightarrow> False)"

text \<open>
  The double nearest to an integer, ties to the even significand of 53 bits: the result of an
  addition or subtraction of two numbers whose exact result is the integer.
\<close>

definition round_double :: "int \<Rightarrow> int" where
  "round_double d =
     (let m = \<bar>d\<bar>;
          u = 2 ^ (nat (bitlen m) - 53);
          q = m div u;
          r = m mod u;
          q' = (if 2 * r < u then q else if u < 2 * r then q + 1 else if even q then q else q + 1)
      in sgn d * (q' * u))"

subsection \<open>The default sorters\<close>

text \<open>
  A sorter, by the number its result is for \<^verbatim>\<open>Array.prototype.sort\<close>; \<^const>\<open>None\<close> is NaN. The third
  argument, the options of the table, is left out: neither default sorter reads it. A sorter
  that throws is outside the model.
\<close>

type_synonym sorter_fn = "jsval \<Rightarrow> jsval \<Rightarrow> int option"

text \<open>A function that returns a number on all arguments, as a sorter.\<close>

definition number_valued :: "(jsval \<Rightarrow> jsval \<Rightarrow> int) \<Rightarrow> sorter_fn" where
  "number_valued f a b = Some (f a b)"

fun lower_if_string :: "jsval \<Rightarrow> jsval" where
  "lower_if_string (JStr s) = JStr (toLowerCase s)"
| "lower_if_string v = v"

text \<open>\<^verbatim>\<open>FooTable.Defaults.prototype.sorters.text\<close>.\<close>

definition sorters_text :: "(string \<Rightarrow> int option) \<Rightarrow> jsval \<Rightarrow> jsval \<Rightarrow> int" where
  "sorters_text N a0 b0 =
     (let a = (if is_string a0 then lower_if_string a0 else a0);
          b = (if is_string b0 then lower_if_string b0 else b0)
      in if a = b then 0
         else if js_lt N a b then - 1
         else 1)"

text \<open>
  \<^verbatim>\<open>FooTable.Defaults.prototype.sorters.number\<close>: \<^verbatim>\<open>a - b\<close>, the difference of the two operands
  as numbers, rounded to a double; it is NaN when an operand is NaN as a number.
\<close>

definition sorters_number :: "(string \<Rightarrow> int option) \<Rightarrow> sorter_fn" where
  "sorters_number N a b =
     (case (ToNumber N a, ToNumber N b) of
        (Some x, Some y) \<Rightarrow> Some (round_double (x - y))
      | _ \<Rightarrow> None)"

text \<open>
  The registry \<^verbatim>\<open>FooTable.Defaults.prototype.sorters\<close>, read as \<^verbatim>\<open>sorters[type]\<close>. Its own
  properties are \<^verbatim>\<open>text\<close> and \<^verbatim>\<open>number\<close>. Under any other name the host looks into what the object
  inherits, where names such as \<^verbatim>\<open>constructor\<close> and \<^verbatim>\<open>toString\<close> hold functions: that lookup is
  not code of this repository and is the parameter \<open>I\<close>, which gives the function found, as a
  sorter, and \<^const>\<open>None\<close> when there is nothing under the name. What is found there is taken
  to be a function.
\<close>

definition sorters ::
  "(string \<Rightarrow> sorter_fn option) \<Rightarrow> (string \<Rightarrow> int option) \<Rightarrow> string \<Rightarrow> sorter_fn option" where
  "sorters I N ty =
     (if ty = ''text'' then Some (number_valued (sorters_text N))
      else if ty = ''number'' then Some (sorters_number N)
      else I ty)"

subsection \<open>The data model\<close>

text \<open>
  A column with the four properties the component adds to \<^verbatim>\<open>FooTable.Column.prototype\<close>, its
  name and index, and the classes of its header cell \<^verbatim>\<open>$el\<close>. The icons inside a header cell
  and the binding of the click handler are not modelled.
\<close>

record column =
  col_name :: string
  col_index :: nat
  sorter :: sorter_fn
  direction :: "string option"
  sortable :: bool
  col_sorted :: bool
  el_classes :: "string list"

text \<open>A row: \<^verbatim>\<open>cells[i].value\<close> is the \<open>i\<close>-th entry of \<open>cells\<close>.\<close>

record row =
  cells :: "jsval list"

text \<open>
  \<^verbatim>\<open>FooTable.Defaults.prototype.sorting\<close>, the object \<^verbatim>\<open>this.o\<close>. The column objects of a table
  are the entries of \<^verbatim>\<open>ft.columns.array\<close>, and a reference to one of them is its position in
  that array: \<open>o_column = Some p\<close> is the object \<^verbatim>\<open>ft.columns.array[p]\<close> and \<^const>\<open>None\<close> is \<^verbatim>\<open>null\<close>.
\<close>

record sorting_options =
  enabled :: bool
  o_column :: "nat option"
  o_direction :: "string option"

text \<open>What a caller may pass as a column: a name, an index, a column object or nothing.\<close>

datatype column_ref = RefNull | RefName string | RefIndex int | RefColumn nat

text \<open>
  Modelled from the spec: \<^verbatim>\<open>FooTable.Sorter\<close> is not under src/. The spec's SortRequest is the
  value object \<^verbatim>\<open>{ column, direction }\<close> built by \<^verbatim>\<open>new FooTable.Sorter(column, direction)\<close>.
\<close>

record js_sorter =
  sorter_column :: column_ref
  sorter_direction :: jsval

record request_data =
  sortColumn :: "string option"
  sortDirection :: "string option"

datatype event =
    sorting_init
  | sorting_reinit
  | change_ft_sorting js_sorter
  | changed_ft_sorting js_sorter

text \<open>
  The table instance \<^verbatim>\<open>ft\<close> as far as the component reads and writes it: the sorting options,
  \<^verbatim>\<open>options.ajaxEnabled\<close>, \<^verbatim>\<open>columns.array\<close>, \<^verbatim>\<open>rows.array\<close>, the events raised so far and the
  request data handed to the remote source so far.
\<close>

record ft_instance =
  sorting :: sorting_options
  ajaxEnabled :: bool
  columns :: "column list"
  rows :: "row list"
  raised :: "event list"
  requests :: "request_data list"

subsection \<open>Collaborators of the table\<close>

fun first_pos :: "('a \<Rightarrow> bool) \<Rightarrow> 'a list \<Rightarrow> nat option" where
  "first_pos P [] = None"
| "first_pos P (x # xs) = (if P x then Some 0 else map_option Suc (first_pos P xs))"

text \<open>
  Modelled from the spec: \<^verbatim>\<open>ft.columns.get\<close> is not under src/. The spec's column lookup is by
  name, by index or by reference, and a reference that names no column yields no match.
\<close>

definition columns_get :: "column list \<Rightarrow> column_ref \<Rightarrow> nat option" where
  "columns_get cols r =
     (case r of
        RefNull \<Rightarrow> None
      | RefName s \<Rightarrow> first_pos (\<lambda>col. col_name col = s) cols
      | RefIndex n \<Rightarrow> first_pos (\<lambda>col. int (col_index col) = n) cols
      | RefColumn p \<Rightarrow> (if p < length cols then Some p else None))"

text \<open>
  Modelled from the spec: \<^verbatim>\<open>ft.columns.first\<close> is not under src/. It yields the first column
  that satisfies the predicate, or nothing.
\<close>

definition columns_first :: "column list \<Rightarrow> (column \<Rightarrow> bool) \<Rightarrow> nat option" where
  "columns_first cols P = first_pos P cols"

text \<open>The column object behind a reference held by the component, if there is one.\<close>

definition deref :: "column list \<Rightarrow> nat option \<Rightarrow> column option" where
  "deref cols r =
     (case r of
        None \<Rightarrow> None
      | Some p \<Rightarrow> (if p < length cols then Some (cols ! p) else None))"

text \<open>The reference as a value stored in a \<^verbatim>\<open>FooTable.Sorter\<close>.\<close>

definition as_ref :: "nat option \<Rightarrow> column_ref" where
  "as_ref r = (case r of None \<Rightarrow> RefNull | Some p \<Rightarrow> RefColumn p)"

text \<open>
  \<^verbatim>\<open>Array.prototype.sort\<close> is the host's: a stable sort, which for a consistent comparison
  function has one possible result. The model is the stable insertion sort; \<open>cmp x y \<le> 0\<close> keeps
  \<open>x\<close> in front of \<open>y\<close>.
\<close>

fun insert_by :: "('a \<Rightarrow> 'a \<Rightarrow> int) \<Rightarrow> 'a \<Rightarrow> 'a list \<Rightarrow> 'a list" where
  "insert_by cmp x [] = [x]"
| "insert_by cmp x (y # ys) = (if cmp x y \<le> 0 then x # y # ys else y # insert_by cmp x ys)"

fun array_sort :: "('a \<Rightarrow> 'a \<Rightarrow> int) \<Rightarrow> 'a list \<Rightarrow> 'a list" where
  "array_sort cmp [] = []"
| "array_sort cmp (x # xs) = insert_by cmp x (array_sort cmp xs)"

subsection \<open>Construction of a column\<close>

text \<open>
  The definition object a column is built from, as far as \<^verbatim>\<open>ctor_column\<close> reads it:
  \<open>def_sorter\<close> is \<^const>\<open>None\<close> when \<^verbatim>\<open>definition.sorter\<close> is not a function, \<open>def_sortable\<close> and
  \<open>def_sorted\<close> are \<^const>\<open>None\<close> when the property is not a boolean.
\<close>

record col_definition =
  def_sorter :: "sorter_fn option"
  def_type :: string
  def_direction :: jsval
  def_sortable :: "bool option"
  def_sorted :: "bool option"

definition addClass :: "string \<Rightarrow> string list \<Rightarrow> string list" where
  "addClass c cs = (if c \<in> set cs then cs else cs @ [c])"

definition removeClass :: "string \<Rightarrow> string list \<Rightarrow> string list" where
  "removeClass c cs = removeAll c cs"

text \<open>
  \<^verbatim>\<open>ctor_column\<close>, with the default registry as \<^verbatim>\<open>ft.options.sorters\<close>: the sorter is the
  definition's own function, else what the registry has under the type, else the text sorter.
\<close>

definition ctor_column ::
  "(string \<Rightarrow> sorter_fn option) \<Rightarrow> (string \<Rightarrow> int option) \<Rightarrow> sorting_options \<Rightarrow> column
     \<Rightarrow> col_definition \<Rightarrow> column" where
  "ctor_column I N opts col d =
     (let srt = (case def_sorter d of
                   Some f \<Rightarrow> f
                 | None \<Rightarrow> (case sorters I N (def_type d) of
                              Some f \<Rightarrow> f
                            | None \<Rightarrow> number_valued (sorters_text N)));
          dir = (case def_direction d of JStr s \<Rightarrow> Some s | _ \<Rightarrow> None);
          sble = (case def_sortable d of Some b \<Rightarrow> b | None \<Rightarrow> True);
          sted = (case def_sorted d of Some b \<Rightarrow> b | None \<Rightarrow> False)
      in col\<lparr>sorter := srt, direction := dir, sortable := sble, col_sorted := sted,
             el_classes := (if enabled opts \<and> sble
                            then addClass ''footable-sortable'' (el_classes col)
                            else el_classes col)\<rparr>)"

subsection \<open>The protected methods\<close>

text \<open>
  The loop \<^verbatim>\<open>$.each(self.ft.columns.array, ...)\<close> of \<^verbatim>\<open>_generate\<close> and \<^verbatim>\<open>_sort\<close>: the column that
  is the target gets the direction, every other column gets \<^verbatim>\<open>null\<close>. \<open>i\<close> is the position of the
  head of the list in the array.
\<close>

fun each_direction :: "nat option \<Rightarrow> string option \<Rightarrow> nat \<Rightarrow> column list \<Rightarrow> column list" where
  "each_direction tgt d i [] = []"
| "each_direction tgt d i (col # cols) =
     (if tgt = Some i then col\<lparr>direction := d\<rparr> else col\<lparr>direction := None\<rparr>)
     # each_direction tgt d (Suc i) cols"

text \<open>
  \<^verbatim>\<open>_generate\<close>. \<open>raw_column\<close> and \<open>raw_direction\<close> are \<^verbatim>\<open>options.sorting.column\<close> and
  \<^verbatim>\<open>options.sorting.direction\<close> as the user gave them; the resolved values are written back to
  the sorting options.
\<close>

definition generate_priv :: "ft_instance \<Rightarrow> column_ref \<Rightarrow> string option \<Rightarrow> ft_instance" where
  "generate_priv ft raw_column raw_direction =
     (let cols = columns ft;
          c = (case columns_get cols raw_column of
                 Some p \<Rightarrow> Some p
               | None \<Rightarrow> columns_first cols col_sorted);
          d = (case deref cols c of
                 None \<Rightarrow> None
               | Some col \<Rightarrow>
                   (case raw_direction of
                      None \<Rightarrow> (case direction col of None \<Rightarrow> Some ''ASC'' | Some cd \<Rightarrow> Some cd)
                    | Some rd \<Rightarrow> Some rd))
      in ft\<lparr>sorting := (sorting ft)\<lparr>o_column := c, o_direction := d\<rparr>,
            columns := each_direction c d 0 cols\<rparr>)"

definition init :: "ft_instance \<Rightarrow> column_ref \<Rightarrow> string option \<Rightarrow> ft_instance" where
  "init ft raw_column raw_direction =
     (if \<not> enabled (sorting ft) then ft
      else (let ft1 = generate_priv ft raw_column raw_direction
            in ft1\<lparr>raised := raised ft1 @ [sorting_init]\<rparr>))"

definition destroy :: "ft_instance \<Rightarrow> ft_instance" where
  "destroy ft =
     (if \<not> enabled (sorting ft) then ft
      else ft\<lparr>columns :=
                map (\<lambda>col. col\<lparr>el_classes := removeClass ''footable-sortable'' (el_classes col)\<rparr>)
                    (columns ft)\<rparr>)"

definition reinit :: "ft_instance \<Rightarrow> column_ref \<Rightarrow> string option \<Rightarrow> ft_instance" where
  "reinit ft raw_column raw_direction =
     (let ft0 = destroy ft
      in if \<not> enabled (sorting ft0) then ft0
         else (let ft1 = generate_priv ft0 raw_column raw_direction
               in ft1\<lparr>raised := raised ft1 @ [sorting_reinit]\<rparr>))"

text \<open>
  \<^verbatim>\<open>preajax\<close>: \<^verbatim>\<open>this.o.column.name\<close> is read with no test of \<^verbatim>\<open>this.o.column\<close>, so a \<^verbatim>\<open>null\<close>
  column throws.
\<close>

definition preajax :: "ft_instance \<Rightarrow> request_data \<Rightarrow> error + request_data" where
  "preajax ft data =
     (if \<not> enabled (sorting ft) then Inr data
      else case deref (columns ft) (o_column (sorting ft)) of
             None \<Rightarrow> Inl TypeError
           | Some col \<Rightarrow>
               Inr (data\<lparr>sortColumn := Some (col_name col),
                         sortDirection := o_direction (sorting ft)\<rparr>))"

text \<open>
  The value of a row in a column, \<^verbatim>\<open>r.cells[column.index].value\<close>, for a row that has the cell,
  and the comparison function \<^verbatim>\<open>predraw\<close> hands to \<^verbatim>\<open>Array.prototype.sort\<close>: the sorter on the
  two cell values for \<^verbatim>\<open>'ASC'\<close>, the sorter on the swapped values for any other direction.
\<close>

definition cell_value :: "column \<Rightarrow> row \<Rightarrow> jsval" where
  "cell_value col r = cells r ! col_index col"

definition row_compare :: "column \<Rightarrow> string \<Rightarrow> row \<Rightarrow> row \<Rightarrow> int option" where
  "row_compare col d a b =
     (if d = ''ASC''
      then sorter col (cell_value col a) (cell_value col b)
      else sorter col (cell_value col b) (cell_value col a))"

text \<open>How \<^verbatim>\<open>Array.prototype.sort\<close> reads the result of its comparison function: NaN is 0.\<close>

definition nan_as_zero :: "int option \<Rightarrow> int" where
  "nan_as_zero v = (case v of None \<Rightarrow> 0 | Some x \<Rightarrow> x)"

text \<open>
  The call \<^verbatim>\<open>rows.array.sort(...)\<close>. The comparison function reads \<^verbatim>\<open>.value\<close> of
  \<^verbatim>\<open>cells[index]\<close> and throws on a row that has no such cell; a sort of two rows or more calls
  it on every row, a sort of fewer rows never calls it.
\<close>

definition sort_rows :: "column \<Rightarrow> string \<Rightarrow> row list \<Rightarrow> error + row list" where
  "sort_rows col d rs =
     (if length rs < 2 then Inr rs
      else if list_all (\<lambda>r. col_index col < length (cells r)) rs
           then Inr (array_sort (\<lambda>a b. nan_as_zero (row_compare col d a b)) rs)
           else Inl TypeError)"

text \<open>A direction that \<^verbatim>\<open>!this.o.direction\<close> lets pass: a string that is not empty.\<close>

definition truthy_direction :: "string option \<Rightarrow> string option" where
  "truthy_direction d = (case d of None \<Rightarrow> None | Some s \<Rightarrow> (if s = [] then None else Some s))"

definition predraw :: "ft_instance \<Rightarrow> error + ft_instance" where
  "predraw ft =
     (if \<not> enabled (sorting ft) \<or> ajaxEnabled ft then Inr ft
      else case deref (columns ft) (o_column (sorting ft)) of
             None \<Rightarrow> Inr ft
           | Some col \<Rightarrow>
               (case truthy_direction (o_direction (sorting ft)) of
                  None \<Rightarrow> Inr ft
                | Some d \<Rightarrow>
                    (case sort_rows col d (rows ft) of
                       Inl e \<Rightarrow> Inl e
                     | Inr rs \<Rightarrow> Inr (ft\<lparr>rows := rs\<rparr>))))"

text \<open>
  \<^verbatim>\<open>draw\<close>, on the classes of the header cells: the headers with \<^verbatim>\<open>footable-sortable\<close> lose
  \<^verbatim>\<open>footable-asc\<close> and \<^verbatim>\<open>footable-desc\<close>, then the header of the active column gets one of them.
\<close>

definition clear_marks :: "column \<Rightarrow> column" where
  "clear_marks col =
     (if ''footable-sortable'' \<in> set (el_classes col)
      then col\<lparr>el_classes := removeClass ''footable-desc'' (removeClass ''footable-asc'' (el_classes col))\<rparr>
      else col)"

definition mark_active :: "string \<Rightarrow> column \<Rightarrow> column" where
  "mark_active d col =
     col\<lparr>el_classes := addClass (if d = ''ASC'' then ''footable-asc'' else ''footable-desc'')
                                 (el_classes col)\<rparr>"

definition draw :: "ft_instance \<Rightarrow> ft_instance" where
  "draw ft =
     (if \<not> enabled (sorting ft) then ft
      else case o_column (sorting ft) of
             None \<Rightarrow> ft
           | Some p \<Rightarrow>
               (if \<not> p < length (columns ft) then ft
                else case truthy_direction (o_direction (sorting ft)) of
                       None \<Rightarrow> ft
                     | Some d \<Rightarrow>
                         (let cleared = map clear_marks (columns ft)
                          in ft\<lparr>columns := cleared[p := mark_active d (cleared ! p)]\<rparr>)))"

text \<open>
  Modelled from the spec: \<^verbatim>\<open>ft.update\<close> is not under src/. The spec's refresh performs the remote
  data fetch or the redraw: with remote-sourced data the outgoing request data is populated by
  \<^verbatim>\<open>preajax\<close> on each refresh, and the drawing operation runs \<^verbatim>\<open>predraw\<close> and \<^verbatim>\<open>draw\<close>. The rows a
  remote source answers with are outside the model.
\<close>

definition update :: "ft_instance \<Rightarrow> error + ft_instance" where
  "update ft =
     (case (if ajaxEnabled ft
            then (case preajax ft \<lparr>sortColumn = None, sortDirection = None\<rparr> of
                    Inl e \<Rightarrow> Inl e
                  | Inr data \<Rightarrow> Inr (ft\<lparr>requests := requests ft @ [data]\<rparr>))
            else Inr ft) of
        Inl e \<Rightarrow> Inl e
      | Inr ft1 \<Rightarrow>
          (case predraw ft1 of
             Inl e \<Rightarrow> Inl e
           | Inr ft2 \<Rightarrow> Inr (draw ft2)))"

subsection \<open>Sorting\<close>

text \<open>\<^verbatim>\<open>_direction\<close>: a string that is \<^verbatim>\<open>'ASC'\<close> or \<^verbatim>\<open>'DESC'\<close> is kept, anything else is \<^verbatim>\<open>'ASC'\<close>.\<close>

definition direction_priv :: "jsval \<Rightarrow> string" where
  "direction_priv str =
     (case str of
        JStr s \<Rightarrow> (if s = ''ASC'' \<or> s = ''DESC'' then s else ''ASC'')
      | _ \<Rightarrow> ''ASC'')"

text \<open>
  The listeners of \<^verbatim>\<open>change.ft.sorting\<close>, taken together, as \<^verbatim>\<open>ft.raise\<close> runs them: they get the
  sorter object, may assign to its two properties and may call \<^verbatim>\<open>preventDefault\<close>. The result is
  whether the default was prevented, and the sorter as they leave it. Listeners that write to
  the table itself are outside the model.
\<close>

type_synonym listener = "js_sorter \<Rightarrow> bool \<times> js_sorter"

text \<open>
  \<^verbatim>\<open>_sort\<close>. \<open>new_sorter\<close> is its first statement, the sorter built from the resolved column and
  the checked direction. \<^verbatim>\<open>$.when()\<close> is the resolved promise, and the function given to \<^verbatim>\<open>then\<close>
  runs only when the update has not failed.
\<close>

definition new_sorter :: "ft_instance \<Rightarrow> column_ref \<Rightarrow> jsval \<Rightarrow> js_sorter" where
  "new_sorter ft column dir =
     \<lparr>sorter_column = as_ref (columns_get (columns ft) column),
      sorter_direction = JStr (direction_priv dir)\<rparr>"

definition sort_priv ::
  "listener \<Rightarrow> ft_instance \<Rightarrow> column_ref \<Rightarrow> jsval \<Rightarrow> bool \<Rightarrow> error + ft_instance" where
  "sort_priv L ft column dir redraw =
     (let srt = new_sorter ft column dir;
          ft1 = ft\<lparr>raised := raised ft @ [change_ft_sorting srt]\<rparr>
      in case L srt of
           (True, srt') \<Rightarrow> Inr ft1
         | (False, srt') \<Rightarrow>
             (let ft2 = ft1\<lparr>sorting := (sorting ft1)
                            \<lparr>o_column := columns_get (columns ft1) (sorter_column srt'),
                             o_direction := Some (direction_priv (sorter_direction srt'))\<rparr>\<rparr>
              in case (if redraw then update ft2 else Inr ft2) of
                   Inl e \<Rightarrow> Inl e
                 | Inr ft3 \<Rightarrow>
                     Inr (ft3\<lparr>columns := each_direction (o_column (sorting ft3))
                                            (o_direction (sorting ft3)) 0 (columns ft3),
                              raised := raised ft3 @ [changed_ft_sorting srt']\<rparr>)))"

text \<open>The public \<^verbatim>\<open>sort\<close>, which is also \<^verbatim>\<open>FooTable.Instance.prototype.sort\<close>.\<close>

definition sort_pub :: "listener \<Rightarrow> ft_instance \<Rightarrow> column_ref \<Rightarrow> jsval \<Rightarrow> error + ft_instance" where
  "sort_pub L ft column dir = sort_priv L ft column dir True"

text \<open>
  A header cell as the click handler reads it: its classes and \<^verbatim>\<open>$header.index()\<close>. The header
  cell of a column carries the column's classes and stands at the column's index.
\<close>

record header =
  h_classes :: "string list"
  h_index :: nat

definition header_of :: "column \<Rightarrow> header" where
  "header_of col = \<lparr>h_classes = el_classes col, h_index = col_index col\<rparr>"

text \<open>The direction \<^verbatim>\<open>_onSortClicked\<close> asks for.\<close>

definition clicked_direction :: "string list \<Rightarrow> string" where
  "clicked_direction cs =
     (if ''footable-asc'' \<in> set cs \<or> ''footable-desc'' \<in> set cs
      then (if ''footable-desc'' \<in> set cs then ''ASC'' else ''DESC'')
      else ''ASC'')"

definition onSortClicked :: "listener \<Rightarrow> ft_instance \<Rightarrow> header \<Rightarrow> error + ft_instance" where
  "onSortClicked L ft h =
     sort_priv L ft (RefIndex (int (h_index h))) (JStr (clicked_direction (h_classes h))) True"

subsection \<open>Example tables and listeners\<close>

text \<open>
  A host that reads no string as a number, which is right for the strings of the examples: none
  of them is a numeral. And a registry that inherits nothing; the examples look up \<^verbatim>\<open>text\<close> only.
\<close>

definition no_number :: "string \<Rightarrow> int option" where
  "no_number s = None"

definition no_inherited :: "string \<Rightarrow> sorter_fn option" where
  "no_inherited ty = None"

text \<open>No listener is bound; a listener that cancels; a listener that rewrites the sorter.\<close>

definition no_listener :: listener where
  "no_listener srt = (False, srt)"

definition cancelling :: listener where
  "cancelling srt = (True, srt)"

definition redirecting :: listener where
  "redirecting srt =
     (False, srt\<lparr>sorter_column := RefName ''price'', sorter_direction := JStr ''DESC''\<rparr>)"

definition shop_columns :: "column list" where
  "shop_columns =
     [\<lparr>col_name = ''name'', col_index = 0, sorter = number_valued (sorters_text no_number),
       direction = None,
       sortable = True, col_sorted = False, el_classes = [''footable-sortable'']\<rparr>,
      \<lparr>col_name = ''price'', col_index = 1, sorter = sorters_number no_number, direction = None,
       sortable = True, col_sorted = False, el_classes = [''footable-sortable'']\<rparr>]"

definition shop_rows :: "row list" where
  "shop_rows =
     [\<lparr>cells = [JStr ''Bob'', JNum 3]\<rparr>,
      \<lparr>cells = [JStr ''alice'', JNum 1]\<rparr>,
      \<lparr>cells = [JStr ''Carl'', JNum 2]\<rparr>]"

text \<open>A table of three rows and two columns, with sorting and remote data switched as given.\<close>

definition shop_table :: "bool \<Rightarrow> bool \<Rightarrow> ft_instance" where
  "shop_table en ajax =
     \<lparr>sorting = \<lparr>enabled = en, o_column = None, o_direction = None\<rparr>,
      ajaxEnabled = ajax, columns = shop_columns, rows = shop_rows, raised = [], requests = []\<rparr>"

text \<open>What an outcome shows of the table: the error, or a view of the resulting instance.\<close>

definition on_result :: "(ft_instance \<Rightarrow> 'a) \<Rightarrow> error + ft_instance \<Rightarrow> error + 'a" where
  "on_result f r = (case r of Inl e \<Rightarrow> Inl e | Inr ft \<Rightarrow> Inr (f ft))"

text \<open>The tests \<^verbatim>\<open>v <= 0\<close>, \<^verbatim>\<open>v < 0\<close>, \<^verbatim>\<open>v > 0\<close> and \<^verbatim>\<open>v >= 0\<close> on a result; each is false on NaN.\<close>

definition le_zero :: "int option \<Rightarrow> bool" where
  "le_zero v = (case v of None \<Rightarrow> False | Some x \<Rightarrow> x \<le> 0)"

definition lt_zero :: "int option \<Rightarrow> bool" where
  "lt_zero v = (case v of None \<Rightarrow> False | Some x \<Rightarrow> x < 0)"

definition gt_zero :: "int option \<Rightarrow> bool" where
  "gt_zero v = (case v of None \<Rightarrow> False | Some x \<Rightarrow> 0 < x)"

definition ge_zero :: "int option \<Rightarrow> bool" where
  "ge_zero v = (case v of None \<Rightarrow> False | Some x \<Rightarrow> 0 \<le> x)"

text \<open>
  A comparison function that is consistent on the values \<open>vs\<close>: its result is never NaN, the
  signs of \<open>cmp a b\<close> and \<open>cmp b a\<close> are opposite, and \<open>cmp a b \<le> 0\<close> is transitive.
  \<^verbatim>\<open>Array.prototype.sort\<close> has a defined sort order only for such a function.
\<close>

definition consistent :: "sorter_fn \<Rightarrow> jsval list \<Rightarrow> bool" where
  "consistent cmp vs =
     (\<forall>a\<in>set vs. \<forall>b\<in>set vs.
        cmp a b \<noteq> None
        \<and> (lt_zero (cmp a b) = gt_zero (cmp b a))
        \<and> (\<forall>c\<in>set vs. le_zero (cmp a b) \<and> le_zero (cmp b c) \<longrightarrow> le_zero (cmp a c)))"

text \<open>The table of the spec's scenario: one column \<^verbatim>\<open>v\<close> of type text and three rows.\<close>

definition names_table :: ft_instance where
  "names_table =
     \<lparr>sorting = \<lparr>enabled = True, o_column = None, o_direction = None\<rparr>,
      ajaxEnabled = False,
      columns =
        [ctor_column no_inherited no_number \<lparr>enabled = True, o_column = None, o_direction = None\<rparr>
           \<lparr>col_name = ''v'', col_index = 0, sorter = (\<lambda>a b. None), direction = None,
            sortable = True, col_sorted = False, el_classes = []\<rparr>
           \<lparr>def_sorter = None, def_type = ''text'', def_direction = JUndefined,
            def_sortable = None, def_sorted = None\<rparr>],
      rows = [\<lparr>cells = [JStr ''Bob'']\<rparr>, \<lparr>cells = [JStr ''alice'']\<rparr>, \<lparr>cells = [JStr ''Carl'']\<rparr>],
      raised = [], requests = []\<rparr>"

text \<open>
  A local table of two rows with one column, which has the given sorter and the two given
  values; a sort by the column, ascending, is committed.
\<close>

definition mixed_table :: "sorter_fn \<Rightarrow> jsval \<Rightarrow> jsval \<Rightarrow> ft_instance" where
  "mixed_table srt v w =
     \<lparr>sorting = \<lparr>enabled = True, o_column = Some 0, o_direction = Some ''ASC''\<rparr>,
      ajaxEnabled = False,
      columns = [\<lparr>col_name = ''v'', col_index = 0, sorter = srt, direction = Some ''ASC'',
                  sortable = True, col_sorted = False, el_classes = [''footable-sortable'']\<rparr>],
      rows = [\<lparr>cells = [v]\<rparr>, \<lparr>cells = [w]\<rparr>],
      raised = [], requests = []\<rparr>"

text \<open>The shop table, local, when a sort by the column at \<open>p\<close> in direction \<open>d\<close> is committed.\<close>

definition shop_committed :: "nat \<Rightarrow> string \<Rightarrow> ft_instance" where
  "shop_committed p d =
     (shop_table True False)
       \<lparr>sorting := \<lparr>enabled = True, o_column = Some p, o_direction = Some d\<rparr>\<rparr>"

text \<open>
  A click on the header cell of the column at position \<open>p\<close>, once \<^verbatim>\<open>_generate\<close> has bound the
  handler: it runs for a header cell with the class \<^verbatim>\<open>footable-sortable\<close>, on the table a
  previous operation left, and not at all after a failure.
\<close>

definition click :: "listener \<Rightarrow> nat \<Rightarrow> error + ft_instance \<Rightarrow> error + ft_instance" where
  "click L p r =
     (case r of
        Inl e \<Rightarrow> Inl e
      | Inr ft \<Rightarrow>
          (if p < length (columns ft) \<and> ''footable-sortable'' \<in> set (el_classes (columns ft ! p))
           then onSortClicked L ft (header_of (columns ft ! p))
           else Inr ft))"

section \<open>Properties\<close>

subsection \<open>Column lookup, direction check and frame conditions\<close>

lemma first_pos_Some: "first_pos P xs = Some p \<Longrightarrow> p < length xs \<and> P (xs ! p)"
proof (induction xs arbitrary: p)
  case Nil
  then show ?case by simp
next
  case (Cons x xs)
  show ?case
  proof (cases "P x")
    case True
    with Cons.prems show ?thesis by simp
  next
    case False
    with Cons.prems obtain q where q: "first_pos P xs = Some q" "p = Suc q" by auto
    with Cons.IH show ?thesis by simp
  qed
qed

lemma columns_get_range: "columns_get cols r = Some p \<Longrightarrow> p < length cols"
  by (cases r) (auto simp: columns_get_def dest: first_pos_Some split: if_splits)

lemma columns_get_name: "columns_get cols (RefName s) = Some p \<Longrightarrow> col_name (cols ! p) = s"
  by (auto simp: columns_get_def dest: first_pos_Some)

lemma columns_get_as_ref: "columns_get cols (as_ref (columns_get cols r)) = columns_get cols r"
proof (cases "columns_get cols r")
  case None
  then show ?thesis by (simp add: as_ref_def columns_get_def)
next
  case (Some p)
  then have "p < length cols" by (rule columns_get_range)
  with Some show ?thesis by (simp add: as_ref_def columns_get_def)
qed

lemma direction_priv_cases: "direction_priv v = ''ASC'' \<or> direction_priv v = ''DESC''"
  by (auto simp: direction_priv_def split: jsval.splits)

lemma direction_priv_idem: "direction_priv (JStr (direction_priv v)) = direction_priv v"
  by (auto simp: direction_priv_def split: jsval.splits)

lemma direction_priv_other:
  "v \<noteq> JStr ''ASC'' \<Longrightarrow> v \<noteq> JStr ''DESC'' \<Longrightarrow> direction_priv v = ''ASC''"
  by (auto simp: direction_priv_def split: jsval.splits)

lemma length_each_direction: "length (each_direction tgt d i cols) = length cols"
  by (induction cols arbitrary: i) auto

lemma predraw_frame:
  "predraw ft = Inr ft' \<Longrightarrow>
     sorting ft' = sorting ft \<and> columns ft' = columns ft \<and> ajaxEnabled ft' = ajaxEnabled ft
     \<and> raised ft' = raised ft \<and> requests ft' = requests ft"
  by (auto simp: predraw_def split: if_splits option.splits sum.splits)

lemma draw_frame:
  "sorting (draw ft) = sorting ft \<and> rows (draw ft) = rows ft
   \<and> ajaxEnabled (draw ft) = ajaxEnabled ft
   \<and> raised (draw ft) = raised ft \<and> requests (draw ft) = requests ft
   \<and> length (columns (draw ft)) = length (columns ft)"
  by (auto simp: draw_def Let_def split: option.splits)

lemma update_frame:
  assumes "update ft = Inr ft'"
  shows "sorting ft' = sorting ft \<and> length (columns ft') = length (columns ft)
         \<and> raised ft' = raised ft \<and> ajaxEnabled ft' = ajaxEnabled ft"
proof -
  from assms obtain ft1 ft2 where
    s1: "ft1 = ft \<or> (\<exists>data. ft1 = ft\<lparr>requests := requests ft @ [data]\<rparr>)"
    and s2: "predraw ft1 = Inr ft2" and s3: "ft' = draw ft2"
    by (auto simp: update_def split: if_splits sum.splits)
  from s1 have f1: "sorting ft1 = sorting ft \<and> columns ft1 = columns ft \<and> raised ft1 = raised ft
      \<and> ajaxEnabled ft1 = ajaxEnabled ft"
    by auto
  from predraw_frame[OF s2] f1 draw_frame[of ft2] s3 show ?thesis by simp
qed

lemma sort_priv_Inr:
  assumes "L (new_sorter ft column dir) = (False, srt')"
    and "sort_priv L ft column dir redraw = Inr ft'"
  shows "o_column (sorting ft') = columns_get (columns ft) (sorter_column srt')
         \<and> o_direction (sorting ft') = Some (direction_priv (sorter_direction srt'))
         \<and> length (columns ft') = length (columns ft)
         \<and> (\<exists>cols. length cols = length (columns ft)
               \<and> columns ft' = each_direction (o_column (sorting ft')) (o_direction (sorting ft')) 0 cols)"
proof -
  let ?rq = "new_sorter ft column dir"
  let ?ft1 = "ft\<lparr>raised := raised ft @ [change_ft_sorting ?rq]\<rparr>"
  let ?ft2 = "?ft1\<lparr>sorting := (sorting ?ft1)
                 \<lparr>o_column := columns_get (columns ?ft1) (sorter_column srt'),
                  o_direction := Some (direction_priv (sorter_direction srt'))\<rparr>\<rparr>"
  define r where "r = (if redraw then update ?ft2 else Inr ?ft2)"
  from assms(2) have "(case r of
                         Inl e \<Rightarrow> Inl e
                       | Inr ft3 \<Rightarrow>
                           Inr (ft3\<lparr>columns := each_direction (o_column (sorting ft3))
                                                  (o_direction (sorting ft3)) 0 (columns ft3),
                                    raised := raised ft3 @ [changed_ft_sorting srt']\<rparr>)) = Inr ft'"
    unfolding sort_priv_def Let_def assms(1) r_def by (simp only: prod.case bool.case if_False)
  then obtain ft3 where
    u0: "r = Inr ft3"
    and f: "ft' = ft3\<lparr>columns := each_direction (o_column (sorting ft3)) (o_direction (sorting ft3)) 0
                                   (columns ft3),
                     raised := raised ft3 @ [changed_ft_sorting srt']\<rparr>"
    by (cases r) auto
  from u0 have u: "(if redraw then update ?ft2 else Inr ?ft2) = Inr ft3" by (simp only: r_def)
  have k: "sorting ft3 = sorting ?ft2 \<and> length (columns ft3) = length (columns ?ft2)"
  proof (cases redraw)
    case True
    with u have "update ?ft2 = Inr ft3" by simp
    from update_frame [OF this] show ?thesis by simp
  next
    case False
    with u show ?thesis by simp
  qed
  from k f have "o_column (sorting ft') = columns_get (columns ft) (sorter_column srt')
      \<and> o_direction (sorting ft') = Some (direction_priv (sorter_direction srt'))
      \<and> length (columns ft') = length (columns ft)"
    by (simp add: length_each_direction)
  moreover from k f have "length (columns ft3) = length (columns ft)
      \<and> columns ft' = each_direction (o_column (sorting ft')) (o_direction (sorting ft')) 0
                         (columns ft3)"
    by simp
  ultimately show ?thesis by blast
qed

lemma sort_priv_raises_change:
  assumes "sort_priv L ft column dir redraw = Inr ft'"
  shows "\<exists>rest. raised ft' = raised ft @ change_ft_sorting (new_sorter ft column dir) # rest"
proof -
  let ?rq = "new_sorter ft column dir"
  let ?ft1 = "ft\<lparr>raised := raised ft @ [change_ft_sorting ?rq]\<rparr>"
  obtain b srt' where l: "L ?rq = (b, srt')" by (cases "L ?rq")
  show ?thesis
  proof (cases b)
    case True
    with l assms have "ft' = ?ft1" by (simp add: sort_priv_def Let_def)
    then show ?thesis by simp
  next
    case False
    let ?ft2 = "?ft1\<lparr>sorting := (sorting ?ft1)
                 \<lparr>o_column := columns_get (columns ?ft1) (sorter_column srt'),
                  o_direction := Some (direction_priv (sorter_direction srt'))\<rparr>\<rparr>"
    define r where "r = (if redraw then update ?ft2 else Inr ?ft2)"
    from l False have l': "L ?rq = (False, srt')" by simp
    from assms have "(case r of
                         Inl e \<Rightarrow> Inl e
                       | Inr ft3 \<Rightarrow>
                           Inr (ft3\<lparr>columns := each_direction (o_column (sorting ft3))
                                                  (o_direction (sorting ft3)) 0 (columns ft3),
                                    raised := raised ft3 @ [changed_ft_sorting srt']\<rparr>)) = Inr ft'"
      unfolding sort_priv_def Let_def l' r_def by (simp only: prod.case bool.case if_False)
    then obtain ft3 where u0: "r = Inr ft3"
      and f: "raised ft' = raised ft3 @ [changed_ft_sorting srt']"
      by (cases r) auto
    have "raised ft3 = raised ?ft2"
    proof (cases redraw)
      case True
      with u0 have "update ?ft2 = Inr ft3" by (simp only: r_def if_True)
      from update_frame [OF this] show ?thesis by simp
    next
      case False
      with u0 show ?thesis by (simp add: r_def)
    qed
    with f show ?thesis by simp
  qed
qed

lemma on_result_Inr: "on_result f r = Inr v \<Longrightarrow> \<exists>ft'. r = Inr ft' \<and> f ft' = v"
  by (cases r) (auto simp: on_result_def)

subsection \<open>A cancelled sort\<close>

text \<open>
  Claim C2. When the listeners of \<^verbatim>\<open>change.ft.sorting\<close> prevent the default, the sort stops there:
  the promise is resolved, the sorting options (column and direction), every column with its
  direction, the rows and the outgoing requests are as before the call, and the only event raised
  is \<^verbatim>\<open>change.ft.sorting\<close> itself, so \<^verbatim>\<open>changed.ft.sorting\<close> is not raised. This holds for
  \<^verbatim>\<open>_sort\<close> with either value of \<^verbatim>\<open>redraw\<close>, hence for the public \<^verbatim>\<open>sort\<close> and for a click.
\<close>

theorem sort_cancelled:
  assumes "fst (L (new_sorter ft column dir))"
  shows "\<exists>ft'. sort_priv L ft column dir redraw = Inr ft'
           \<and> sorting ft' = sorting ft
           \<and> columns ft' = columns ft
           \<and> rows ft' = rows ft
           \<and> requests ft' = requests ft
           \<and> raised ft' = raised ft @ [change_ft_sorting (new_sorter ft column dir)]"
  using assms by (cases "L (new_sorter ft column dir)") (simp add: sort_priv_def Let_def)

theorem sort_cancelled_witness:
  "fst (cancelling (new_sorter (shop_table True False) (RefName ''price'') (JStr ''DESC'')))
   \<and> (\<exists>ft'. sort_priv cancelling (shop_table True False) (RefName ''price'') (JStr ''DESC'') True
              = Inr ft'
           \<and> sorting ft' = sorting (shop_table True False)
           \<and> columns ft' = columns (shop_table True False)
           \<and> rows ft' = rows (shop_table True False)
           \<and> requests ft' = requests (shop_table True False)
           \<and> raised ft' = raised (shop_table True False)
                @ [change_ft_sorting
                     (new_sorter (shop_table True False) (RefName ''price'') (JStr ''DESC''))])"
proof -
  have h: "fst (cancelling (new_sorter (shop_table True False) (RefName ''price'') (JStr ''DESC'')))"
    by (simp add: cancelling_def)
  from h sort_cancelled [of cancelling "shop_table True False" "RefName ''price''" "JStr ''DESC''" True]
  show ?thesis by simp
qed

subsection \<open>The direction argument\<close>

text \<open>
  Claim C4. A direction argument other than the strings \<^verbatim>\<open>'ASC'\<close> and \<^verbatim>\<open>'DESC'\<close> is checked to
  \<^verbatim>\<open>'ASC'\<close>, and \<^verbatim>\<open>sort\<close> with it has the outcome of \<^verbatim>\<open>sort\<close> with the direction left out and of
  \<^verbatim>\<open>sort\<close> with \<^verbatim>\<open>'ASC'\<close>: the same error, or the same instance in every part. In particular
  \<^verbatim>\<open>'sideways'\<close> is as no direction. The sort it runs is a sort by \<^verbatim>\<open>'ASC'\<close>: the sorter it builds
  and raises \<^verbatim>\<open>change.ft.sorting\<close> with has the direction \<^verbatim>\<open>'ASC'\<close>, and when the sort completes
  and no listener has cancelled it or changed the sorter's direction, the direction of the
  sorting options is \<^verbatim>\<open>'ASC'\<close>.
\<close>

theorem direction_normalized:
  assumes "dir \<noteq> JStr ''ASC''" and "dir \<noteq> JStr ''DESC''"
  shows "direction_priv dir = ''ASC''
         \<and> sort_pub L ft column dir = sort_pub L ft column JUndefined
         \<and> sort_pub L ft column (JStr ''sideways'') = sort_pub L ft column JUndefined
         \<and> sort_pub L ft column dir = sort_pub L ft column (JStr ''ASC'')
         \<and> new_sorter ft column dir =
             \<lparr>sorter_column = as_ref (columns_get (columns ft) column),
              sorter_direction = JStr ''ASC''\<rparr>
         \<and> (\<forall>ft'. sort_pub L ft column dir = Inr ft' \<longrightarrow>
               (\<exists>rest. raised ft' =
                  raised ft @ change_ft_sorting
                                \<lparr>sorter_column = as_ref (columns_get (columns ft) column),
                                 sorter_direction = JStr ''ASC''\<rparr> # rest))
         \<and> (\<forall>ft' srt'. L (new_sorter ft column dir) = (False, srt')
                 \<and> sorter_direction srt' = sorter_direction (new_sorter ft column dir)
                 \<and> sort_pub L ft column dir = Inr ft' \<longrightarrow>
               o_direction (sorting ft') = Some ''ASC'')"
proof -
  have a: "direction_priv dir = ''ASC''" using assms by (rule direction_priv_other)
  have b: "direction_priv JUndefined = ''ASC''" by (simp add: direction_priv_def)
  have c: "direction_priv (JStr ''sideways'') = ''ASC''" by (simp add: direction_priv_def)
  have d: "direction_priv (JStr ''ASC'') = ''ASC''" by (simp add: direction_priv_def)
  have n: "new_sorter ft column dir =
             \<lparr>sorter_column = as_ref (columns_get (columns ft) column),
              sorter_direction = JStr ''ASC''\<rparr>"
    by (simp add: new_sorter_def a)
  have e: "sort_pub L ft column dir = sort_pub L ft column JUndefined
         \<and> sort_pub L ft column (JStr ''sideways'') = sort_pub L ft column JUndefined
         \<and> sort_pub L ft column dir = sort_pub L ft column (JStr ''ASC'')"
    unfolding sort_pub_def sort_priv_def new_sorter_def a b c d by simp
  have r: "\<exists>rest. raised ft' =
                  raised ft @ change_ft_sorting
                                \<lparr>sorter_column = as_ref (columns_get (columns ft) column),
                                 sorter_direction = JStr ''ASC''\<rparr> # rest"
    if "sort_pub L ft column dir = Inr ft'" for ft'
    using sort_priv_raises_change [of L ft column dir True ft'] that
    by (simp add: sort_pub_def n)
  have o: "o_direction (sorting ft') = Some ''ASC''"
    if "L (new_sorter ft column dir) = (False, srt')"
      and "sorter_direction srt' = sorter_direction (new_sorter ft column dir)"
      and "sort_pub L ft column dir = Inr ft'" for ft' srt'
  proof -
    from that(3) have "sort_priv L ft column dir True = Inr ft'" by (simp add: sort_pub_def)
    from sort_priv_Inr [OF that(1) this]
    have "o_direction (sorting ft') = Some (direction_priv (sorter_direction srt'))" by simp
    with that(2) show ?thesis by (simp add: n d)
  qed
  from a e n r o show ?thesis by blast
qed

lemma unchecked_direction_sort:
  "on_result sorting (sort_pub no_listener (shop_table True False) (RefName ''name'') (JNum 7))
     = Inr \<lparr>enabled = True, o_column = Some 0, o_direction = Some ''ASC''\<rparr>"
  by code_simp

theorem direction_normalized_witness:
  "JNum 7 \<noteq> JStr ''ASC'' \<and> JNum 7 \<noteq> JStr ''DESC''
   \<and> direction_priv (JNum 7) = ''ASC''
   \<and> sort_pub no_listener (shop_table True False) (RefName ''name'') (JNum 7)
       = sort_pub no_listener (shop_table True False) (RefName ''name'') JUndefined
   \<and> sort_pub no_listener (shop_table True False) (RefName ''name'') (JStr ''sideways'')
       = sort_pub no_listener (shop_table True False) (RefName ''name'') JUndefined
   \<and> sort_pub no_listener (shop_table True False) (RefName ''name'') (JNum 7)
       = sort_pub no_listener (shop_table True False) (RefName ''name'') (JStr ''ASC'')
   \<and> no_listener (new_sorter (shop_table True False) (RefName ''name'') (JNum 7))
       = (False, \<lparr>sorter_column = RefColumn 0, sorter_direction = JStr ''ASC''\<rparr>)
   \<and> (\<exists>ft'. sort_pub no_listener (shop_table True False) (RefName ''name'') (JNum 7) = Inr ft'
         \<and> o_direction (sorting ft') = Some ''ASC''
         \<and> (\<exists>rest. raised ft' =
                change_ft_sorting \<lparr>sorter_column = RefColumn 0, sorter_direction = JStr ''ASC''\<rparr>
                # rest))"
proof -
  let ?T = "shop_table True False"
  let ?c = "RefName ''name''"
  have h1: "JNum 7 \<noteq> JStr ''ASC''" and h2: "JNum 7 \<noteq> JStr ''DESC''" by simp_all
  note t = direction_normalized [OF h1 h2, of no_listener ?T ?c]
  note q1 = t [THEN conjunct1]
  note q2 = t [THEN conjunct2, THEN conjunct1]
  note q3 = t [THEN conjunct2, THEN conjunct2, THEN conjunct1]
  note q4 = t [THEN conjunct2, THEN conjunct2, THEN conjunct2, THEN conjunct1]
  note q5 = t [THEN conjunct2, THEN conjunct2, THEN conjunct2, THEN conjunct2, THEN conjunct1]
  note q6 = t [THEN conjunct2, THEN conjunct2, THEN conjunct2, THEN conjunct2, THEN conjunct2,
      THEN conjunct1, rule_format]
  note q7 = t [THEN conjunct2, THEN conjunct2, THEN conjunct2, THEN conjunct2, THEN conjunct2,
      THEN conjunct2, rule_format]
  have cg: "as_ref (columns_get (columns ?T) ?c) = RefColumn 0"
    by (simp add: shop_table_def shop_columns_def columns_get_def as_ref_def)
  have n: "new_sorter ?T ?c (JNum 7)
             = \<lparr>sorter_column = RefColumn 0, sorter_direction = JStr ''ASC''\<rparr>"
    using q5 unfolding cg .
  have l: "no_listener (new_sorter ?T ?c (JNum 7))
             = (False, \<lparr>sorter_column = RefColumn 0, sorter_direction = JStr ''ASC''\<rparr>)"
    by (simp add: no_listener_def n)
  from on_result_Inr [OF unchecked_direction_sort]
  obtain ft' where r: "sort_pub no_listener ?T ?c (JNum 7) = Inr ft'" by blast
  have o: "o_direction (sorting ft') = Some ''ASC''"
    by (rule q7 [of "\<lparr>sorter_column = RefColumn 0, sorter_direction = JStr ''ASC''\<rparr>" ft'])
       (simp add: no_listener_def r n)
  from q6 [OF r] have e: "\<exists>rest. raised ft' =
                change_ft_sorting \<lparr>sorter_column = RefColumn 0, sorter_direction = JStr ''ASC''\<rparr>
                # rest"
    unfolding cg by (simp add: shop_table_def)
  note q = q1 q2 q3 q4
  show ?thesis
    by (intro conjI exI [of _ ft']) (rule h1 h2 q l r o e)+
qed

subsection \<open>A click on a header\<close>

text \<open>
  Claim C9. The click handler asks for a direction that it reads off the clicked header: a header
  with neither mark asks for \<^verbatim>\<open>'ASC'\<close>, a header marked ascending asks for \<^verbatim>\<open>'DESC'\<close>, a header
  marked descending asks for \<^verbatim>\<open>'ASC'\<close>. The direction asked for is always one of the two, and
  the handler calls \<^verbatim>\<open>_sort\<close> with the header's index, that direction and a redraw.
\<close>

theorem click_toggles:
  "(''footable-asc'' \<notin> set (h_classes h) \<and> ''footable-desc'' \<notin> set (h_classes h)
      \<longrightarrow> clicked_direction (h_classes h) = ''ASC'')
   \<and> (''footable-asc'' \<in> set (h_classes h) \<and> ''footable-desc'' \<notin> set (h_classes h)
      \<longrightarrow> clicked_direction (h_classes h) = ''DESC'')
   \<and> (''footable-desc'' \<in> set (h_classes h) \<longrightarrow> clicked_direction (h_classes h) = ''ASC'')
   \<and> (clicked_direction (h_classes h) = ''ASC'' \<or> clicked_direction (h_classes h) = ''DESC'')
   \<and> onSortClicked L ft h =
       sort_priv L ft (RefIndex (int (h_index h))) (JStr (clicked_direction (h_classes h))) True"
  by (simp add: clicked_direction_def onSortClicked_def)

theorem click_toggles_witness:
  "''footable-asc'' \<notin> set [''footable-sortable''] \<and> ''footable-desc'' \<notin> set [''footable-sortable'']
   \<and> clicked_direction [''footable-sortable''] = ''ASC''
   \<and> ''footable-asc'' \<in> set [''footable-sortable'', ''footable-asc'']
   \<and> ''footable-desc'' \<notin> set [''footable-sortable'', ''footable-asc'']
   \<and> clicked_direction [''footable-sortable'', ''footable-asc''] = ''DESC''
   \<and> ''footable-desc'' \<in> set [''footable-sortable'', ''footable-desc'']
   \<and> clicked_direction [''footable-sortable'', ''footable-desc''] = ''ASC''"
  using click_toggles [of "\<lparr>h_classes = [''footable-sortable''], h_index = 0\<rparr>"]
        click_toggles [of "\<lparr>h_classes = [''footable-sortable'', ''footable-asc''], h_index = 0\<rparr>"]
        click_toggles [of "\<lparr>h_classes = [''footable-sortable'', ''footable-desc''], h_index = 0\<rparr>"]
  by simp

subsection \<open>Sorting while the component is disabled\<close>

lemma update_disabled:
  assumes "\<not> enabled (sorting ft)"
  shows "update ft =
           Inr (if ajaxEnabled ft
                then ft\<lparr>requests := requests ft @ [\<lparr>sortColumn = None, sortDirection = None\<rparr>]\<rparr>
                else ft)"
  using assms by (simp add: update_def preajax_def predraw_def draw_def)

text \<open>
  Claim C10. With \<^verbatim>\<open>enabled\<close> false the public \<^verbatim>\<open>sort\<close> is not cut short. It raises
  \<^verbatim>\<open>change.ft.sorting\<close>; when the listeners do not prevent the default it writes the column and
  the direction of the sorting options, rewrites the direction of every column and raises
  \<^verbatim>\<open>changed.ft.sorting\<close>; the promise is resolved and the rows are as before. The hooks
  \<^verbatim>\<open>init\<close>, \<^verbatim>\<open>destroy\<close>, \<^verbatim>\<open>preajax\<close>, \<^verbatim>\<open>predraw\<close> and \<^verbatim>\<open>draw\<close> change nothing while disabled.
\<close>

theorem sort_while_disabled:
  assumes "\<not> enabled (sorting ft)"
  shows "(\<exists>ft'. sort_pub L ft column dir = Inr ft'
            \<and> rows ft' = rows ft
            \<and> (if fst (L (new_sorter ft column dir))
               then raised ft' = raised ft @ [change_ft_sorting (new_sorter ft column dir)]
                    \<and> sorting ft' = sorting ft \<and> columns ft' = columns ft
               else raised ft' = raised ft @ [change_ft_sorting (new_sorter ft column dir),
                                              changed_ft_sorting (snd (L (new_sorter ft column dir)))]
                    \<and> \<not> enabled (sorting ft')
                    \<and> o_column (sorting ft') =
                        columns_get (columns ft) (sorter_column (snd (L (new_sorter ft column dir))))
                    \<and> o_direction (sorting ft') =
                        Some (direction_priv (sorter_direction (snd (L (new_sorter ft column dir)))))
                    \<and> columns ft' = each_direction (o_column (sorting ft'))
                                       (o_direction (sorting ft')) 0 (columns ft)))
         \<and> init ft raw_column raw_direction = ft
         \<and> destroy ft = ft
         \<and> preajax ft data = Inr data
         \<and> predraw ft = Inr ft
         \<and> draw ft = ft"
proof -
  obtain b srt' where l: "L (new_sorter ft column dir) = (b, srt')"
    by (cases "L (new_sorter ft column dir)")
  have hooks: "init ft raw_column raw_direction = ft \<and> destroy ft = ft \<and> preajax ft data = Inr data
      \<and> predraw ft = Inr ft \<and> draw ft = ft"
    using assms by (simp add: init_def destroy_def preajax_def predraw_def draw_def)
  have sortp: "\<exists>ft'. sort_pub L ft column dir = Inr ft'
            \<and> rows ft' = rows ft
            \<and> (if fst (L (new_sorter ft column dir))
               then raised ft' = raised ft @ [change_ft_sorting (new_sorter ft column dir)]
                    \<and> sorting ft' = sorting ft \<and> columns ft' = columns ft
               else raised ft' = raised ft @ [change_ft_sorting (new_sorter ft column dir),
                                              changed_ft_sorting (snd (L (new_sorter ft column dir)))]
                    \<and> \<not> enabled (sorting ft')
                    \<and> o_column (sorting ft') =
                        columns_get (columns ft) (sorter_column (snd (L (new_sorter ft column dir))))
                    \<and> o_direction (sorting ft') =
                        Some (direction_priv (sorter_direction (snd (L (new_sorter ft column dir)))))
                    \<and> columns ft' = each_direction (o_column (sorting ft'))
                                       (o_direction (sorting ft')) 0 (columns ft))"
  proof (cases b)
    case True
    with l show ?thesis by (simp add: sort_pub_def sort_priv_def Let_def)
  next
    case False
    with l assms show ?thesis
      by (simp add: sort_pub_def sort_priv_def Let_def update_disabled)
  qed
  from sortp hooks show ?thesis by blast
qed

theorem sort_while_disabled_witness:
  "\<not> enabled (sorting (shop_table False False))
   \<and> (\<exists>ft'. sort_pub no_listener (shop_table False False) (RefName ''price'') (JStr ''DESC'') = Inr ft'
          \<and> rows ft' = shop_rows
          \<and> sorting ft' = \<lparr>enabled = False, o_column = Some 1, o_direction = Some ''DESC''\<rparr>
          \<and> map direction (columns ft') = [None, Some ''DESC'']
          \<and> raised ft' =
               [change_ft_sorting \<lparr>sorter_column = RefColumn 1, sorter_direction = JStr ''DESC''\<rparr>,
                changed_ft_sorting \<lparr>sorter_column = RefColumn 1, sorter_direction = JStr ''DESC''\<rparr>])"
proof -
  let ?T = "shop_table False False"
  have h: "\<not> enabled (sorting ?T)" by (simp add: shop_table_def)
  have rq: "new_sorter ?T (RefName ''price'') (JStr ''DESC'')
              = \<lparr>sorter_column = RefColumn 1, sorter_direction = JStr ''DESC''\<rparr>"
    by (simp add: new_sorter_def shop_table_def shop_columns_def columns_get_def as_ref_def
        direction_priv_def)
  let ?rq = "new_sorter ?T (RefName ''price'') (JStr ''DESC'')"
  have "\<exists>ft'. sort_pub no_listener ?T (RefName ''price'') (JStr ''DESC'') = Inr ft'
          \<and> rows ft' = rows ?T
          \<and> raised ft' = raised ?T @ [change_ft_sorting ?rq, changed_ft_sorting ?rq]
          \<and> \<not> enabled (sorting ft')
          \<and> o_column (sorting ft') = columns_get (columns ?T) (sorter_column ?rq)
          \<and> o_direction (sorting ft') = Some (direction_priv (sorter_direction ?rq))
          \<and> columns ft' = each_direction (o_column (sorting ft')) (o_direction (sorting ft')) 0
                            (columns ?T)"
    using sort_while_disabled [OF h, of no_listener "RefName ''price''" "JStr ''DESC''"
        RefNull None "\<lparr>sortColumn = None, sortDirection = None\<rparr>"]
    by (simp add: no_listener_def)
  then obtain ft' where r: "sort_pub no_listener ?T (RefName ''price'') (JStr ''DESC'') = Inr ft'"
    and rw: "rows ft' = rows ?T"
    and ev: "raised ft' = raised ?T @ [change_ft_sorting ?rq, changed_ft_sorting ?rq]"
    and en: "\<not> enabled (sorting ft')"
    and oc: "o_column (sorting ft') = columns_get (columns ?T) (sorter_column ?rq)"
    and od: "o_direction (sorting ft') = Some (direction_priv (sorter_direction ?rq))"
    and cs: "columns ft' = each_direction (o_column (sorting ft')) (o_direction (sorting ft')) 0
                            (columns ?T)"
    by blast
  from oc have oc': "o_column (sorting ft') = Some 1"
    unfolding rq by (simp add: shop_table_def shop_columns_def columns_get_def)
  from od have od': "o_direction (sorting ft') = Some ''DESC''"
    unfolding rq by (simp add: direction_priv_def)
  from en oc' od' have s: "sorting ft' = \<lparr>enabled = False, o_column = Some 1, o_direction = Some ''DESC''\<rparr>"
    by (cases "sorting ft'") simp
  from cs have c: "map direction (columns ft') = [None, Some ''DESC'']"
    by (simp add: oc' od' shop_table_def shop_columns_def)
  from ev have e: "raised ft' =
               [change_ft_sorting \<lparr>sorter_column = RefColumn 1, sorter_direction = JStr ''DESC''\<rparr>,
                changed_ft_sorting \<lparr>sorter_column = RefColumn 1, sorter_direction = JStr ''DESC''\<rparr>]"
    unfolding rq by (simp add: shop_table_def)
  from rw have w: "rows ft' = shop_rows" by (simp add: shop_table_def)
  show ?thesis
  proof (intro conjI exI [of _ ft'])
    show "\<not> enabled (sorting ?T)" by (rule h)
  qed (rule r w s c e)+
qed

subsection \<open>Remote data\<close>

lemma predraw_remote: "ajaxEnabled ft \<Longrightarrow> predraw ft = Inr ft"
  by (simp add: predraw_def)

lemma update_remote:
  assumes "enabled (sorting ft)" and "ajaxEnabled ft"
    and "o_column (sorting ft) = Some p" and "p < length (columns ft)"
  shows "\<exists>ft'. update ft = Inr ft' \<and> rows ft' = rows ft \<and> sorting ft' = sorting ft
           \<and> raised ft' = raised ft
           \<and> requests ft' = requests ft @ [\<lparr>sortColumn = Some (col_name (columns ft ! p)),
                                              sortDirection = o_direction (sorting ft)\<rparr>]"
proof -
  let ?data = "\<lparr>sortColumn = Some (col_name (columns ft ! p)),
                 sortDirection = o_direction (sorting ft)\<rparr>"
  let ?ft1 = "ft\<lparr>requests := requests ft @ [?data]\<rparr>"
  have pa: "preajax ft \<lparr>sortColumn = None, sortDirection = None\<rparr> = Inr ?data"
    using assms by (simp add: preajax_def deref_def)
  have pd: "predraw ?ft1 = Inr ?ft1"
    using assms(2) by (simp add: predraw_def)
  have u: "update ft = Inr (draw ?ft1)"
    using assms(2) pa pd by (simp add: update_def)
  from draw_frame [of ?ft1] u show ?thesis by simp
qed

text \<open>
  Claim C6. With sorting enabled and remote data in effect, a sort by the name of an existing
  column that no listener cancels or rewrites, such as \<^verbatim>\<open>sort("price", "DESC")\<close>, leaves the rows
  as they are: \<^verbatim>\<open>predraw\<close> returns at once. The request data of the refresh it triggers carries
  the name of the column as \<^verbatim>\<open>sortColumn\<close> and the checked direction as \<^verbatim>\<open>sortDirection\<close>.
\<close>

theorem remote_sort:
  assumes "enabled (sorting ft)" and "ajaxEnabled ft"
    and "columns_get (columns ft) (RefName nm) = Some p"
    and "L (new_sorter ft (RefName nm) dir) = (False, new_sorter ft (RefName nm) dir)"
  shows "\<exists>ft'. sort_pub L ft (RefName nm) dir = Inr ft'
           \<and> rows ft' = rows ft
           \<and> requests ft' = requests ft @ [\<lparr>sortColumn = Some nm,
                                              sortDirection = Some (direction_priv dir)\<rparr>]
           \<and> predraw ft = Inr ft"
proof -
  let ?rq = "new_sorter ft (RefName nm) dir"
  let ?ft1 = "ft\<lparr>raised := raised ft @ [change_ft_sorting ?rq]\<rparr>"
  let ?ft2 = "?ft1\<lparr>sorting := (sorting ?ft1)\<lparr>o_column := Some p,
                                   o_direction := Some (direction_priv dir)\<rparr>\<rparr>"
  have p: "p < length (columns ft)" using assms(3) by (rule columns_get_range)
  have nm: "col_name (columns ft ! p) = nm" using assms(3) by (rule columns_get_name)
  have c: "columns_get (columns ft) (sorter_column ?rq) = Some p"
    using columns_get_as_ref [of "columns ft" "RefName nm"] assms(3) by (simp add: new_sorter_def)
  have d: "direction_priv (sorter_direction ?rq) = direction_priv dir"
    by (simp add: new_sorter_def direction_priv_idem)
  from update_remote [of ?ft2 p] assms(1,2) p
  obtain ft3 where u: "update ?ft2 = Inr ft3" and r: "rows ft3 = rows ft"
    and q: "requests ft3 = requests ft @ [\<lparr>sortColumn = Some (col_name (columns ft ! p)),
                                          sortDirection = Some (direction_priv dir)\<rparr>]"
    by auto
  have "sort_pub L ft (RefName nm) dir =
          Inr (ft3\<lparr>columns := each_direction (o_column (sorting ft3)) (o_direction (sorting ft3)) 0
                                 (columns ft3),
                   raised := raised ft3 @ [changed_ft_sorting ?rq]\<rparr>)"
    using assms(4) c d u by (simp add: sort_pub_def sort_priv_def Let_def)
  moreover have "predraw ft = Inr ft" using assms(2) by (rule predraw_remote)
  ultimately show ?thesis using r q nm by simp
qed

theorem remote_sort_witness:
  "enabled (sorting (shop_table True True)) \<and> ajaxEnabled (shop_table True True)
   \<and> columns_get (columns (shop_table True True)) (RefName ''price'') = Some 1
   \<and> no_listener (new_sorter (shop_table True True) (RefName ''price'') (JStr ''DESC''))
       = (False, new_sorter (shop_table True True) (RefName ''price'') (JStr ''DESC''))
   \<and> (\<exists>ft'. sort_pub no_listener (shop_table True True) (RefName ''price'') (JStr ''DESC'') = Inr ft'
          \<and> rows ft' = shop_rows
          \<and> requests ft' = [\<lparr>sortColumn = Some ''price'', sortDirection = Some ''DESC''\<rparr>])"
proof -
  let ?T = "shop_table True True"
  have h1: "enabled (sorting ?T)" and h2: "ajaxEnabled ?T" by (simp_all add: shop_table_def)
  have h3: "columns_get (columns ?T) (RefName ''price'') = Some 1"
    by (simp add: shop_table_def shop_columns_def columns_get_def)
  have h4: "no_listener (new_sorter ?T (RefName ''price'') (JStr ''DESC''))
              = (False, new_sorter ?T (RefName ''price'') (JStr ''DESC''))"
    by (simp add: no_listener_def)
  have d: "direction_priv (JStr ''DESC'') = ''DESC''" by (simp add: direction_priv_def)
  from remote_sort [of ?T "''price''" 1 no_listener "JStr ''DESC''", OF h1 h2 h3 h4]
  obtain ft' where r: "sort_pub no_listener ?T (RefName ''price'') (JStr ''DESC'') = Inr ft'"
    and w: "rows ft' = rows ?T"
    and q: "requests ft' = requests ?T @ [\<lparr>sortColumn = Some ''price'',
               sortDirection = Some (direction_priv (JStr ''DESC''))\<rparr>]"
    by blast
  from w have w': "rows ft' = shop_rows" by (simp add: shop_table_def)
  from q have q': "requests ft' = [\<lparr>sortColumn = Some ''price'', sortDirection = Some ''DESC''\<rparr>]"
    unfolding d by (simp add: shop_table_def)
  show ?thesis
  proof (intro conjI exI [of _ ft'])
    show "enabled (sorting ?T)" by (rule h1)
    show "ajaxEnabled ?T" by (rule h2)
  qed (rule h3 h4 r w' q')+
qed

subsection \<open>What a listener can do to the sorter\<close>

text \<open>
  Claim C7, as the code has it. \<^verbatim>\<open>_sort\<close> reads the column and the direction back from the
  sorter object after \<^verbatim>\<open>change.ft.sorting\<close> was raised. The values it commits to the sorting
  options are the column that the sorter's \<^verbatim>\<open>column\<close> resolves to and the checked
  \<^verbatim>\<open>direction\<close> of the sorter as the listeners left it; they are the values resolved from the
  caller's arguments when the listeners left the sorter as it was.
\<close>

theorem committed_from_sorter:
  assumes "L (new_sorter ft column dir) = (False, srt')"
    and "sort_priv L ft column dir redraw = Inr ft'"
  shows "o_column (sorting ft') = columns_get (columns ft) (sorter_column srt')
         \<and> o_direction (sorting ft') = Some (direction_priv (sorter_direction srt'))
         \<and> (srt' = new_sorter ft column dir \<longrightarrow>
              o_column (sorting ft') = columns_get (columns ft) column
              \<and> o_direction (sorting ft') = Some (direction_priv dir))"
proof -
  from sort_priv_Inr [OF assms]
  have a: "o_column (sorting ft') = columns_get (columns ft) (sorter_column srt')"
    and b: "o_direction (sorting ft') = Some (direction_priv (sorter_direction srt'))"
    by simp_all
  have c: "columns_get (columns ft) (sorter_column (new_sorter ft column dir))
             = columns_get (columns ft) column"
    by (simp add: new_sorter_def columns_get_as_ref)
  have d: "direction_priv (sorter_direction (new_sorter ft column dir)) = direction_priv dir"
    by (simp add: new_sorter_def direction_priv_idem)
  from a b c d show ?thesis by simp
qed

lemma redirected_sort_config:
  "on_result sorting (sort_pub redirecting (shop_table True False) (RefName ''name'') (JStr ''ASC''))
     = Inr \<lparr>enabled = True, o_column = Some 1, o_direction = Some ''DESC''\<rparr>"
  by code_simp

lemma plain_sort_config:
  "on_result sorting (sort_pub no_listener (shop_table True False) (RefName ''name'') (JStr ''ASC''))
     = Inr \<lparr>enabled = True, o_column = Some 0, o_direction = Some ''ASC''\<rparr>"
  by code_simp

text \<open>
  The claim as the spec states it fails: a listener that assigns \<^verbatim>\<open>'price'\<close> and \<^verbatim>\<open>'DESC'\<close> to the
  sorter of \<^verbatim>\<open>sort('name', 'ASC')\<close> and does not cancel makes the sort commit the column at
  position 1 and \<^verbatim>\<open>'DESC'\<close>, where the caller's arguments resolve to position 0 and \<^verbatim>\<open>'ASC'\<close>.
\<close>

theorem listener_substitutes_counterexample:
  "\<not> fst (redirecting (new_sorter (shop_table True False) (RefName ''name'') (JStr ''ASC'')))
   \<and> on_result sorting
        (sort_pub redirecting (shop_table True False) (RefName ''name'') (JStr ''ASC''))
       = Inr \<lparr>enabled = True, o_column = Some 1, o_direction = Some ''DESC''\<rparr>
   \<and> columns_get (columns (shop_table True False)) (RefName ''name'') = Some 0
   \<and> direction_priv (JStr ''ASC'') = ''ASC''"
  using redirected_sort_config
  by (simp add: redirecting_def shop_table_def shop_columns_def columns_get_def direction_priv_def)

theorem committed_from_sorter_witness:
  "redirecting (new_sorter (shop_table True False) (RefName ''name'') (JStr ''ASC''))
     = (False, \<lparr>sorter_column = RefName ''price'', sorter_direction = JStr ''DESC''\<rparr>)
   \<and> (\<exists>ft'. sort_priv redirecting (shop_table True False) (RefName ''name'') (JStr ''ASC'') True
              = Inr ft'
          \<and> o_column (sorting ft') = Some 1 \<and> o_direction (sorting ft') = Some ''DESC'')
   \<and> no_listener (new_sorter (shop_table True False) (RefName ''name'') (JStr ''ASC''))
     = (False, new_sorter (shop_table True False) (RefName ''name'') (JStr ''ASC''))
   \<and> (\<exists>ft'. sort_priv no_listener (shop_table True False) (RefName ''name'') (JStr ''ASC'') True
              = Inr ft'
          \<and> o_column (sorting ft') = Some 0 \<and> o_direction (sorting ft') = Some ''ASC'')"
proof -
  let ?T = "shop_table True False"
  let ?s = "\<lparr>sorter_column = RefName ''price'', sorter_direction = JStr ''DESC''\<rparr>"
  have h1: "redirecting (new_sorter ?T (RefName ''name'') (JStr ''ASC'')) = (False, ?s)"
    by (simp add: redirecting_def new_sorter_def)
  from on_result_Inr [OF redirected_sort_config]
  obtain ft1 where r1: "sort_priv redirecting ?T (RefName ''name'') (JStr ''ASC'') True = Inr ft1"
    by (auto simp: sort_pub_def)
  from committed_from_sorter [OF h1 r1]
  have c1: "o_column (sorting ft1) = Some 1 \<and> o_direction (sorting ft1) = Some ''DESC''"
    by (simp add: shop_table_def shop_columns_def columns_get_def direction_priv_def)
  have h2: "no_listener (new_sorter ?T (RefName ''name'') (JStr ''ASC''))
              = (False, new_sorter ?T (RefName ''name'') (JStr ''ASC''))"
    by (simp add: no_listener_def)
  from on_result_Inr [OF plain_sort_config]
  obtain ft2 where r2: "sort_priv no_listener ?T (RefName ''name'') (JStr ''ASC'') True = Inr ft2"
    by (auto simp: sort_pub_def)
  from committed_from_sorter [OF h2 r2]
  have c2: "o_column (sorting ft2) = Some 0 \<and> o_direction (sorting ft2) = Some ''ASC''"
    by (simp add: shop_table_def shop_columns_def columns_get_def direction_priv_def
        new_sorter_def as_ref_def)
  from h1 r1 c1 h2 r2 c2 show ?thesis by blast
qed

subsection \<open>One sorted column at most\<close>

lemma each_direction_nth:
  "i < length cols \<Longrightarrow>
     each_direction tgt d k cols ! i =
       (if tgt = Some (k + i) then (cols ! i)\<lparr>direction := d\<rparr> else (cols ! i)\<lparr>direction := None\<rparr>)"
proof (induction cols arbitrary: i k)
  case Nil
  then show ?case by simp
next
  case (Cons c cols)
  show ?case
  proof (cases i)
    case 0
    then show ?thesis by simp
  next
    case (Suc j)
    with Cons.prems have "j < length cols" by simp
    from Cons.IH [OF this, of "Suc k"] Suc show ?thesis by simp
  qed
qed

lemma each_direction_count:
  "length (filter (\<lambda>c. direction c \<noteq> None) (each_direction tgt d k cols)) =
     (if d \<noteq> None \<and> (\<exists>p. tgt = Some p \<and> k \<le> p \<and> p < k + length cols) then 1 else 0)"
proof (induction cols arbitrary: k)
  case Nil
  then show ?case by simp
next
  case (Cons c cols)
  show ?case
  proof (cases "tgt = Some k")
    case True
    then have "\<not> (\<exists>p. tgt = Some p \<and> Suc k \<le> p \<and> p < Suc k + length cols)" by auto
    with Cons.IH [of "Suc k"] True show ?thesis by auto
  next
    case False
    then have "(\<exists>p. tgt = Some p \<and> k \<le> p \<and> p < k + length (c # cols))
               = (\<exists>p. tgt = Some p \<and> Suc k \<le> p \<and> p < Suc k + length cols)"
      by (auto simp: le_eq_less_or_eq)
    with Cons.IH [of "Suc k"] False show ?thesis by simp
  qed
qed

lemma each_direction_exclusive:
  assumes "case tgt of None \<Rightarrow> True | Some p \<Rightarrow> p < length cols" and "tgt \<noteq> None \<longrightarrow> d \<noteq> None"
  shows "(\<forall>i<length (each_direction tgt d 0 cols).
            (direction (each_direction tgt d 0 cols ! i) \<noteq> None) = (tgt = Some i))
         \<and> length (filter (\<lambda>c. direction c \<noteq> None) (each_direction tgt d 0 cols))
             = (if tgt = None then 0 else 1)"
proof -
  have a: "\<forall>i<length (each_direction tgt d 0 cols).
            (direction (each_direction tgt d 0 cols ! i) \<noteq> None) = (tgt = Some i)"
    using assms(2) by (auto simp: length_each_direction each_direction_nth)
  have b: "length (filter (\<lambda>c. direction c \<noteq> None) (each_direction tgt d 0 cols))
             = (if tgt = None then 0 else 1)"
  proof -
    have "length (filter (\<lambda>c. direction c \<noteq> None) (each_direction tgt d 0 cols))
            = (if d \<noteq> None \<and> (\<exists>p. tgt = Some p \<and> 0 \<le> p \<and> p < 0 + length cols) then 1 else 0)"
      by (rule each_direction_count)
    also have "\<dots> = (if tgt = None then 0 else 1)"
      using assms by (cases tgt) auto
    finally show ?thesis .
  qed
  from a b show ?thesis by simp
qed

lemma generate_priv_target:
  "(case o_column (sorting (generate_priv ft rc rd)) of None \<Rightarrow> True
      | Some p \<Rightarrow> p < length (columns ft))
   \<and> (o_column (sorting (generate_priv ft rc rd)) \<noteq> None
        \<longrightarrow> o_direction (sorting (generate_priv ft rc rd)) \<noteq> None)
   \<and> columns (generate_priv ft rc rd) =
       each_direction (o_column (sorting (generate_priv ft rc rd)))
         (o_direction (sorting (generate_priv ft rc rd))) 0 (columns ft)"
proof -
  define c where "c = (case columns_get (columns ft) rc of
                 Some p \<Rightarrow> Some p
               | None \<Rightarrow> columns_first (columns ft) col_sorted)"
  have r: "case c of None \<Rightarrow> True | Some p \<Rightarrow> p < length (columns ft)"
    by (auto simp: c_def columns_first_def split: option.splits
        dest: columns_get_range first_pos_Some)
  then have "c \<noteq> None \<longrightarrow> deref (columns ft) c \<noteq> None"
    by (auto simp: deref_def split: option.splits)
  with r show ?thesis
    unfolding generate_priv_def Let_def c_def [symmetric]
    by (auto split: option.splits)
qed

text \<open>
  Claim C3, as the code has it. After a sort that was not cancelled and has completed, a column
  has a direction exactly when it is the column of the sorting options, which is the column the
  sorter resolves to. So one column has a direction when the sorter's column resolves to a
  column of the table, and no column has one when it resolves to none; never more than one.
  The same holds after \<^verbatim>\<open>_generate\<close>, the resolution of the initial state.
\<close>

theorem exclusive_direction:
  assumes "L (new_sorter ft column dir) = (False, srt')"
    and "sort_priv L ft column dir redraw = Inr ft'"
  shows "(\<forall>i<length (columns ft').
            (direction (columns ft' ! i) \<noteq> None) = (o_column (sorting ft') = Some i))
         \<and> length (filter (\<lambda>c. direction c \<noteq> None) (columns ft'))
             = (if columns_get (columns ft) (sorter_column srt') = None then 0 else 1)
         \<and> (\<forall>i<length (columns (generate_priv ft rc rd)).
              (direction (columns (generate_priv ft rc rd) ! i) \<noteq> None)
                = (o_column (sorting (generate_priv ft rc rd)) = Some i))
         \<and> length (filter (\<lambda>c. direction c \<noteq> None) (columns (generate_priv ft rc rd))) \<le> 1"
proof -
  from sort_priv_Inr [OF assms] obtain cols where
    oc: "o_column (sorting ft') = columns_get (columns ft) (sorter_column srt')"
    and od: "o_direction (sorting ft') = Some (direction_priv (sorter_direction srt'))"
    and len: "length cols = length (columns ft)"
    and cs: "columns ft' = each_direction (o_column (sorting ft')) (o_direction (sorting ft')) 0 cols"
    by blast
  have rng: "case o_column (sorting ft') of None \<Rightarrow> True | Some p \<Rightarrow> p < length cols"
    using oc len by (auto split: option.splits dest: columns_get_range)
  have nn: "o_column (sorting ft') \<noteq> None \<longrightarrow> o_direction (sorting ft') \<noteq> None"
    using od by simp
  from each_direction_exclusive [OF rng nn] cs oc
  have s: "(\<forall>i<length (columns ft').
            (direction (columns ft' ! i) \<noteq> None) = (o_column (sorting ft') = Some i))
         \<and> length (filter (\<lambda>c. direction c \<noteq> None) (columns ft'))
             = (if columns_get (columns ft) (sorter_column srt') = None then 0 else 1)"
    by simp
  let ?g = "generate_priv ft rc rd"
  from generate_priv_target [of ft rc rd]
  have g1: "case o_column (sorting ?g) of None \<Rightarrow> True | Some p \<Rightarrow> p < length (columns ft)"
    and g2: "o_column (sorting ?g) \<noteq> None \<longrightarrow> o_direction (sorting ?g) \<noteq> None"
    and g3: "columns ?g = each_direction (o_column (sorting ?g)) (o_direction (sorting ?g)) 0
                            (columns ft)"
    by simp_all
  from each_direction_exclusive [OF g1 g2] g3
  have g: "(\<forall>i<length (columns ?g).
              (direction (columns ?g ! i) \<noteq> None) = (o_column (sorting ?g) = Some i))
         \<and> length (filter (\<lambda>c. direction c \<noteq> None) (columns ?g)) \<le> 1"
    by simp
  from s g show ?thesis by simp
qed

lemma price_sort_directions:
  "on_result (map direction \<circ> columns)
     (sort_pub no_listener (shop_table True False) (RefName ''price'') (JStr ''DESC''))
     = Inr [None, Some ''DESC'']"
  by code_simp

lemma unresolved_sort_directions:
  "on_result (map direction \<circ> columns)
     (sort_pub no_listener (shop_table True False) (RefName ''nope'') (JStr ''ASC''))
     = Inr [None, None]"
  by code_simp

text \<open>
  The claim as the spec states it fails: \<^verbatim>\<open>sort('nope', 'ASC')\<close> on a table with no column of that
  name is not cancelled and completes, and afterwards no column has a direction.
\<close>

theorem exactly_one_counterexample:
  "\<not> fst (no_listener (new_sorter (shop_table True False) (RefName ''nope'') (JStr ''ASC'')))
   \<and> on_result (map direction \<circ> columns)
        (sort_pub no_listener (shop_table True False) (RefName ''nope'') (JStr ''ASC''))
       = Inr [None, None]"
  using unresolved_sort_directions by (simp add: no_listener_def)

theorem exclusive_direction_witness:
  "no_listener (new_sorter (shop_table True False) (RefName ''price'') (JStr ''DESC''))
     = (False, new_sorter (shop_table True False) (RefName ''price'') (JStr ''DESC''))
   \<and> (\<exists>ft'. sort_priv no_listener (shop_table True False) (RefName ''price'') (JStr ''DESC'') True
              = Inr ft'
          \<and> map direction (columns ft') = [None, Some ''DESC'']
          \<and> o_column (sorting ft') = Some 1
          \<and> (direction (columns ft' ! 1) \<noteq> None) = (o_column (sorting ft') = Some 1)
          \<and> length (filter (\<lambda>c. direction c \<noteq> None) (columns ft')) = 1)"
proof -
  let ?T = "shop_table True False"
  let ?rq = "new_sorter ?T (RefName ''price'') (JStr ''DESC'')"
  have h: "no_listener ?rq = (False, ?rq)" by (simp add: no_listener_def)
  from on_result_Inr [OF price_sort_directions]
  obtain ft' where r: "sort_priv no_listener ?T (RefName ''price'') (JStr ''DESC'') True = Inr ft'"
    and m: "map direction (columns ft') = [None, Some ''DESC'']"
    by (auto simp: sort_pub_def)
  have c: "columns_get (columns ?T) (sorter_column ?rq) = Some 1"
    by (simp add: new_sorter_def shop_table_def shop_columns_def columns_get_def as_ref_def)
  from m have l: "1 < length (columns ft')"
    by (metis length_map length_Cons list.size(3) lessI One_nat_def)
  from sort_priv_Inr [OF h r] c have oc: "o_column (sorting ft') = Some 1" by simp
  from exclusive_direction [OF h r, of RefNull None] c l
  have e: "(direction (columns ft' ! 1) \<noteq> None) = (o_column (sorting ft') = Some 1)"
    and n: "length (filter (\<lambda>c. direction c \<noteq> None) (columns ft')) = 1"
    by simp_all
  show ?thesis
    by (intro conjI exI [of _ ft']) (rule h r m oc e n)+
qed

subsection \<open>A sort by a column that does not exist\<close>

lemma predraw_null_column: "o_column (sorting ft) = None \<Longrightarrow> predraw ft = Inr ft"
  by (simp add: predraw_def deref_def)

lemma draw_null_column: "o_column (sorting ft) = None \<Longrightarrow> draw ft = ft"
  by (simp add: draw_def)

lemma preajax_null_column:
  "enabled (sorting ft) \<Longrightarrow> o_column (sorting ft) = None \<Longrightarrow> preajax ft data = Inl TypeError"
  by (simp add: preajax_def deref_def)

text \<open>
  Claim C5 asks that a column reference that resolves to no column never raises. \<^verbatim>\<open>predraw\<close> and
  \<^verbatim>\<open>draw\<close> test \<^verbatim>\<open>this.o.column\<close> and return, but \<^verbatim>\<open>preajax\<close> reads \<^verbatim>\<open>this.o.column.name\<close> without
  the test: with sorting enabled and remote data, \<^verbatim>\<open>preajax\<close> on a table with no sorted column
  throws, and so \<^verbatim>\<open>sort('nope')\<close> fails instead of resolving. The same sort on local data
  completes and leaves the rows alone.
\<close>

theorem preajax_null_column_throws:
  "preajax (shop_table True True) \<lparr>sortColumn = None, sortDirection = None\<rparr> = Inl TypeError
   \<and> columns_get (columns (shop_table True True)) (RefName ''nope'') = None
   \<and> sort_pub no_listener (shop_table True True) (RefName ''nope'') JUndefined = Inl TypeError
   \<and> on_result rows (sort_pub no_listener (shop_table True False) (RefName ''nope'') JUndefined)
       = Inr shop_rows"
  by (simp add: sort_pub_def sort_priv_def new_sorter_def shop_table_def shop_columns_def
      no_listener_def columns_get_def as_ref_def direction_priv_def update_def
      preajax_def predraw_def draw_def deref_def on_result_def Let_def)

subsection \<open>The order of the rows after a local sort\<close>

lemma mset_insert_by: "mset (insert_by cmp x ys) = add_mset x (mset ys)"
  by (induction ys) auto

lemma mset_array_sort: "mset (array_sort cmp xs) = mset xs"
  by (induction xs) (auto simp: mset_insert_by)

lemma set_array_sort: "set (array_sort cmp xs) = set xs"
  by (metis mset_array_sort set_mset_mset)

lemma array_sort_short: "length xs < 2 \<Longrightarrow> array_sort cmp xs = xs"
  by (cases xs; cases "tl xs") auto

lemma sorted_insert_by:
  assumes tot: "\<forall>a\<in>A. \<forall>b\<in>A. cmp a b \<le> 0 \<or> cmp b a \<le> 0"
    and trans: "\<forall>a\<in>A. \<forall>b\<in>A. \<forall>c\<in>A. cmp a b \<le> 0 \<and> cmp b c \<le> 0 \<longrightarrow> cmp a c \<le> 0"
    and x: "x \<in> A" and ys: "set ys \<subseteq> A"
    and srt: "sorted_wrt (\<lambda>a b. cmp a b \<le> 0) ys"
  shows "sorted_wrt (\<lambda>a b. cmp a b \<le> 0) (insert_by cmp x ys)"
  using ys srt
proof (induction ys)
  case Nil
  then show ?case by simp
next
  case (Cons y ys)
  from Cons.prems have yA: "y \<in> A" and ysA: "set ys \<subseteq> A"
    and yle: "\<forall>z\<in>set ys. cmp y z \<le> 0" and s: "sorted_wrt (\<lambda>a b. cmp a b \<le> 0) ys"
    by auto
  show ?case
  proof (cases "cmp x y \<le> 0")
    case True
    have "\<forall>z\<in>set ys. cmp x z \<le> 0"
    proof
      fix z assume z: "z \<in> set ys"
      with yle have "cmp y z \<le> 0" by simp
      with True trans x yA z ysA show "cmp x z \<le> 0" by blast
    qed
    with True Cons.prems show ?thesis by simp
  next
    case False
    with tot x yA have yx: "cmp y x \<le> 0" by blast
    from Cons.IH [OF ysA s] have i: "sorted_wrt (\<lambda>a b. cmp a b \<le> 0) (insert_by cmp x ys)" .
    have "set (insert_by cmp x ys) = insert x (set ys)"
      by (metis mset_insert_by set_mset_add_mset_insert set_mset_mset)
    with yx yle have "\<forall>z\<in>set (insert_by cmp x ys). cmp y z \<le> 0" by simp
    with False i show ?thesis by simp
  qed
qed

lemma sorted_array_sort:
  assumes tot: "\<forall>a\<in>A. \<forall>b\<in>A. cmp a b \<le> 0 \<or> cmp b a \<le> 0"
    and trans: "\<forall>a\<in>A. \<forall>b\<in>A. \<forall>c\<in>A. cmp a b \<le> 0 \<and> cmp b c \<le> 0 \<longrightarrow> cmp a c \<le> 0"
    and xs: "set xs \<subseteq> A"
  shows "sorted_wrt (\<lambda>a b. cmp a b \<le> 0) (array_sort cmp xs)"
  using xs
proof (induction xs)
  case Nil
  then show ?case by simp
next
  case (Cons x xs)
  then have x: "x \<in> A" and s: "set (array_sort cmp xs) \<subseteq> A"
    by (simp_all add: set_array_sort)
  from Cons have "sorted_wrt (\<lambda>a b. cmp a b \<le> 0) (array_sort cmp xs)" by simp
  from sorted_insert_by [OF tot trans x s this] show ?case by simp
qed

text \<open>What consistency on the values of a column gives for the comparison of two rows.\<close>

lemma row_compare_consistent:
  assumes cons: "consistent (sorter col) (map (cell_value col) rs)"
    and m: "a \<in> set rs" "b \<in> set rs"
  shows "row_compare col d a b \<noteq> None"
    and "(nan_as_zero (row_compare col d a b) \<le> 0) = le_zero (row_compare col d a b)"
    and "le_zero (row_compare col d a b) \<or> le_zero (row_compare col d b a)"
    and "le_zero (sorter col (cell_value col b) (cell_value col a))
           \<Longrightarrow> ge_zero (sorter col (cell_value col a) (cell_value col b))"
proof -
  let ?s = "\<lambda>x y. sorter col (cell_value col x) (cell_value col y)"
  from m have v: "cell_value col a \<in> set (map (cell_value col) rs)"
    "cell_value col b \<in> set (map (cell_value col) rs)" by simp_all
  from cons v obtain x y where ab: "?s a b = Some x" and ba: "?s b a = Some y"
    unfolding consistent_def by (metis not_None_eq)
  from cons v have "lt_zero (?s a b) = gt_zero (?s b a)" "lt_zero (?s b a) = gt_zero (?s a b)"
    unfolding consistent_def by blast+
  with ab ba have sg: "(x < 0) = (0 < y)" "(y < 0) = (0 < x)"
    by (simp_all add: lt_zero_def gt_zero_def)
  show "row_compare col d a b \<noteq> None"
    using ab ba by (simp add: row_compare_def)
  show "(nan_as_zero (row_compare col d a b) \<le> 0) = le_zero (row_compare col d a b)"
    using ab ba by (simp add: row_compare_def nan_as_zero_def le_zero_def)
  show "le_zero (row_compare col d a b) \<or> le_zero (row_compare col d b a)"
    using ab ba sg by (auto simp: row_compare_def le_zero_def)
  show "ge_zero (?s a b)" if "le_zero (?s b a)"
    using that ab ba sg by (auto simp: le_zero_def ge_zero_def)
qed

lemma row_compare_sorted:
  assumes cons: "consistent (sorter col) (map (cell_value col) rs)"
  shows "sorted_wrt (\<lambda>a b. le_zero (row_compare col d a b))
           (array_sort (\<lambda>a b. nan_as_zero (row_compare col d a b)) rs)"
proof -
  let ?cmp = "\<lambda>a b. nan_as_zero (row_compare col d a b)"
  have tot: "\<forall>a\<in>set rs. \<forall>b\<in>set rs. ?cmp a b \<le> 0 \<or> ?cmp b a \<le> 0"
    using row_compare_consistent(2,3) [OF cons] by blast
  have trans: "\<forall>a\<in>set rs. \<forall>b\<in>set rs. \<forall>c\<in>set rs.
          ?cmp a b \<le> 0 \<and> ?cmp b c \<le> 0 \<longrightarrow> ?cmp a c \<le> 0"
  proof (intro ballI impI)
    fix a b c assume m: "a \<in> set rs" "b \<in> set rs" "c \<in> set rs"
      and le: "?cmp a b \<le> 0 \<and> ?cmp b c \<le> 0"
    from m have v: "cell_value col a \<in> set (map (cell_value col) rs)"
      "cell_value col b \<in> set (map (cell_value col) rs)"
      "cell_value col c \<in> set (map (cell_value col) rs)" by simp_all
    from le m have le': "le_zero (row_compare col d a b)" "le_zero (row_compare col d b c)"
      using row_compare_consistent(2) [OF cons] by simp_all
    from cons v have t1: "le_zero (sorter col (cell_value col a) (cell_value col b))
          \<and> le_zero (sorter col (cell_value col b) (cell_value col c))
        \<longrightarrow> le_zero (sorter col (cell_value col a) (cell_value col c))"
      unfolding consistent_def by blast
    from cons v have t2: "le_zero (sorter col (cell_value col c) (cell_value col b))
          \<and> le_zero (sorter col (cell_value col b) (cell_value col a))
        \<longrightarrow> le_zero (sorter col (cell_value col c) (cell_value col a))"
      unfolding consistent_def by blast
    from le' t1 t2 have "le_zero (row_compare col d a c)"
      unfolding row_compare_def by (cases "d = ''ASC''") auto
    with m show "?cmp a c \<le> 0"
      using row_compare_consistent(2) [OF cons] by simp
  qed
  from sorted_array_sort [of "set rs" ?cmp rs, OF tot trans]
  have s: "sorted_wrt (\<lambda>a b. ?cmp a b \<le> 0) (array_sort ?cmp rs)" by simp
  show ?thesis
  proof (rule sorted_wrt_mono_rel [OF _ s])
    fix a b assume "a \<in> set (array_sort ?cmp rs)" "b \<in> set (array_sort ?cmp rs)"
      and "?cmp a b \<le> 0"
    then show "le_zero (row_compare col d a b)"
      using row_compare_consistent(2) [OF cons] by (simp add: set_array_sort)
  qed
qed

text \<open>
  Claim C1, as the code has it. On a table with local data and sorting enabled, with a resolved
  column and a direction that is \<^verbatim>\<open>'ASC'\<close> or \<^verbatim>\<open>'DESC'\<close>, whose rows all have the cell of the column
  and whose sorter is consistent on the values of the column, \<^verbatim>\<open>predraw\<close> succeeds and reorders
  the rows, keeping them all. It sorts with the sorter applied to \<open>(a, b)\<close> for \<^verbatim>\<open>'ASC'\<close> and to
  \<open>(b, a)\<close> for \<^verbatim>\<open>'DESC'\<close>. Afterwards every adjacent pair of rows \<open>r, r'\<close> has \<open>sorter r r' \<le> 0\<close>
  for \<^verbatim>\<open>'ASC'\<close>; for \<^verbatim>\<open>'DESC'\<close> it has \<open>sorter r' r \<le> 0\<close>, which is \<open>0 \<le> sorter r r'\<close>.
\<close>

theorem predraw_sorted:
  assumes en: "enabled (sorting ft)" and loc: "\<not> ajaxEnabled ft"
    and col: "deref (columns ft) (o_column (sorting ft)) = Some col"
    and dir: "o_direction (sorting ft) = Some d" and d: "d = ''ASC'' \<or> d = ''DESC''"
    and cls: "\<forall>r\<in>set (rows ft). col_index col < length (cells r)"
    and cons: "consistent (sorter col) (map (cell_value col) (rows ft))"
  shows "\<exists>ft'. predraw ft = Inr ft'
           \<and> mset (rows ft') = mset (rows ft)
           \<and> rows ft' =
               array_sort (\<lambda>a b. nan_as_zero
                                   (if d = ''ASC''
                                    then sorter col (cell_value col a) (cell_value col b)
                                    else sorter col (cell_value col b) (cell_value col a)))
                 (rows ft)
           \<and> (d = ''ASC'' \<longrightarrow>
                successively (\<lambda>a b. le_zero (sorter col (cell_value col a) (cell_value col b)))
                  (rows ft'))
           \<and> (d = ''DESC'' \<longrightarrow>
                successively (\<lambda>a b. le_zero (sorter col (cell_value col b) (cell_value col a)))
                  (rows ft')
                \<and> successively (\<lambda>a b. ge_zero (sorter col (cell_value col a) (cell_value col b)))
                    (rows ft'))"
proof -
  let ?cmp = "\<lambda>a b. nan_as_zero (row_compare col d a b)"
  let ?rs = "array_sort ?cmp (rows ft)"
  have rc: "?cmp = (\<lambda>a b. nan_as_zero
                                   (if d = ''ASC''
                                    then sorter col (cell_value col a) (cell_value col b)
                                    else sorter col (cell_value col b) (cell_value col a)))"
    by (intro ext) (simp add: row_compare_def)
  have td: "truthy_direction (o_direction (sorting ft)) = Some d"
    using dir d by (auto simp: truthy_direction_def)
  have sr: "sort_rows col d (rows ft) = Inr ?rs"
    using cls by (simp add: sort_rows_def array_sort_short list_all_iff)
  have p: "predraw ft = Inr (ft\<lparr>rows := ?rs\<rparr>)"
    using en loc col td sr by (simp add: predraw_def)
  have m: "mset ?rs = mset (rows ft)" by (rule mset_array_sort)
  have s: "successively (\<lambda>a b. le_zero (row_compare col d a b)) ?rs"
    using row_compare_sorted [OF cons] by (rule successively_if_sorted_wrt)
  have asc: "successively (\<lambda>a b. le_zero (sorter col (cell_value col a) (cell_value col b))) ?rs"
    if "d = ''ASC''"
    using s that by (simp add: row_compare_def)
  have desc1: "successively (\<lambda>a b. le_zero (sorter col (cell_value col b) (cell_value col a))) ?rs"
    if "d = ''DESC''"
    using s that by (simp add: row_compare_def)
  have desc2: "successively (\<lambda>a b. ge_zero (sorter col (cell_value col a) (cell_value col b))) ?rs"
    if dd: "d = ''DESC''"
  proof (rule successively_mono [OF desc1 [OF dd]])
    fix a b assume "a \<in> set ?rs" "b \<in> set ?rs"
      and le: "le_zero (sorter col (cell_value col b) (cell_value col a))"
    then have "a \<in> set (rows ft)" "b \<in> set (rows ft)" by (simp_all add: set_array_sort)
    from row_compare_consistent(4) [OF cons this le]
    show "ge_zero (sorter col (cell_value col a) (cell_value col b))" .
  qed
  show ?thesis
  proof (intro exI [of _ "ft\<lparr>rows := ?rs\<rparr>"] conjI impI)
    show "predraw ft = Inr (ft\<lparr>rows := ?rs\<rparr>)" by (rule p)
    show "mset (rows (ft\<lparr>rows := ?rs\<rparr>)) = mset (rows ft)" using m by simp
    show "rows (ft\<lparr>rows := ?rs\<rparr>) =
               array_sort (\<lambda>a b. nan_as_zero
                                   (if d = ''ASC''
                                    then sorter col (cell_value col a) (cell_value col b)
                                    else sorter col (cell_value col b) (cell_value col a)))
                 (rows ft)"
      using rc by simp
    show "successively (\<lambda>a b. le_zero (sorter col (cell_value col a) (cell_value col b)))
            (rows (ft\<lparr>rows := ?rs\<rparr>))" if "d = ''ASC''"
      using asc [OF that] by simp
    show "successively (\<lambda>a b. le_zero (sorter col (cell_value col b) (cell_value col a)))
            (rows (ft\<lparr>rows := ?rs\<rparr>))" if "d = ''DESC''"
      using desc1 [OF that] by simp
    show "successively (\<lambda>a b. ge_zero (sorter col (cell_value col a) (cell_value col b)))
            (rows (ft\<lparr>rows := ?rs\<rparr>))" if "d = ''DESC''"
      using desc2 [OF that] by simp
  qed
qed

text \<open>
  The claim as the spec states it fails without the condition on the sorter. A text column over
  the number 1 and the string \<^verbatim>\<open>'b'\<close> meets all the claim asks for, and the text sorter returns 1
  on the two values in either order: after \<^verbatim>\<open>predraw\<close>, ascending, the adjacent pair of rows has a
  comparator result that is not \<open>\<le> 0\<close>.
\<close>

theorem adjacent_pairs_counterexample:
  "enabled (sorting (mixed_table (number_valued (sorters_text no_number)) (JNum 1) (JStr ''b'')))
   \<and> \<not> ajaxEnabled (mixed_table (number_valued (sorters_text no_number)) (JNum 1) (JStr ''b''))
   \<and> on_result rows
        (predraw (mixed_table (number_valued (sorters_text no_number)) (JNum 1) (JStr ''b'')))
       = Inr [\<lparr>cells = [JStr ''b'']\<rparr>, \<lparr>cells = [JNum 1]\<rparr>]
   \<and> number_valued (sorters_text no_number) (JStr ''b'') (JNum 1) = Some 1
   \<and> number_valued (sorters_text no_number) (JNum 1) (JStr ''b'') = Some 1
   \<and> \<not> le_zero (number_valued (sorters_text no_number) (JStr ''b'') (JNum 1))"
  by code_simp

text \<open>
  The number sorter on \<^verbatim>\<open>undefined\<close> and a number is NaN; the sort reads it as 0 and leaves the
  two rows in place, and the test \<open>\<le> 0\<close> on the pair is false.
\<close>

lemma number_sorter_nan:
  "sorters_number N JUndefined (JNum 1) = None
   \<and> sorters_number N (JNum 1) JUndefined = None
   \<and> \<not> le_zero (sorters_number N JUndefined (JNum 1))
   \<and> on_result rows (predraw (mixed_table (sorters_number N) JUndefined (JNum 1)))
       = Inr [\<lparr>cells = [JUndefined]\<rparr>, \<lparr>cells = [JNum 1]\<rparr>]"
  by (simp add: sorters_number_def le_zero_def on_result_def predraw_def mixed_table_def deref_def
      truthy_direction_def sort_rows_def row_compare_def cell_value_def nan_as_zero_def)

lemma round_double_exact:
  assumes "\<bar>d\<bar> < 2 ^ 53"
  shows "round_double d = d"
proof -
  have "bitlen \<bar>d\<bar> \<le> 53"
  proof (cases "d = 0")
    case True
    then show ?thesis by simp
  next
    case False
    then have p: "0 < \<bar>d\<bar>" by simp
    from bitlen_bounds [OF p] assms have lt: "(2::int) ^ nat (bitlen \<bar>d\<bar> - 1) < 2 ^ 53"
      by linarith
    have "nat (bitlen \<bar>d\<bar> - 1) < 53" by (rule power_less_imp_less_exp [OF _ lt]) simp
    then show ?thesis by linarith
  qed
  then have z: "nat (bitlen \<bar>d\<bar>) - 53 = 0" by simp
  have "sgn d * \<bar>d\<bar> = d" by (simp add: sgn_if)
  with z show ?thesis
    by (simp add: round_double_def Let_def)
qed

lemma round_double_ties:
  "round_double 9007199254740993 = 9007199254740992
   \<and> round_double 9007199254740995 = 9007199254740996
   \<and> round_double (- 9007199254740995) = - 9007199254740996"
  by code_simp

lemma price_column: "shop_columns ! 1 =
    \<lparr>col_name = ''price'', col_index = 1, sorter = sorters_number no_number, direction = None,
       sortable = True, col_sorted = False, el_classes = [''footable-sortable'']\<rparr>"
  by (simp add: shop_columns_def)

lemma price_values: "map (cell_value (shop_columns ! 1)) shop_rows = [JNum 3, JNum 1, JNum 2]"
  unfolding price_column by (simp add: cell_value_def shop_rows_def)

lemma number_consistent: "consistent (sorters_number N) [JNum 3, JNum 1, JNum 2]"
  by (simp add: consistent_def sorters_number_def round_double_exact le_zero_def lt_zero_def
      gt_zero_def)

theorem predraw_sorted_witness:
  "enabled (sorting (shop_committed 1 ''DESC'')) \<and> \<not> ajaxEnabled (shop_committed 1 ''DESC'')
   \<and> deref (columns (shop_committed 1 ''DESC'')) (o_column (sorting (shop_committed 1 ''DESC'')))
       = Some (shop_columns ! 1)
   \<and> o_direction (sorting (shop_committed 1 ''DESC'')) = Some ''DESC''
   \<and> map (cell_value (shop_columns ! 1)) (rows (shop_committed 1 ''DESC''))
       = [JNum 3, JNum 1, JNum 2]
   \<and> (\<exists>ft'. predraw (shop_committed 1 ''DESC'') = Inr ft'
       \<and> rows ft' = [\<lparr>cells = [JStr ''Bob'', JNum 3]\<rparr>, \<lparr>cells = [JStr ''Carl'', JNum 2]\<rparr>,
                      \<lparr>cells = [JStr ''alice'', JNum 1]\<rparr>]
       \<and> successively (\<lambda>a b. ge_zero (sorters_number no_number (cell_value (shop_columns ! 1) a)
                                                                   (cell_value (shop_columns ! 1) b)))
            (rows ft'))
   \<and> (\<exists>ft'. predraw (shop_committed 1 ''ASC'') = Inr ft'
       \<and> rows ft' = [\<lparr>cells = [JStr ''alice'', JNum 1]\<rparr>, \<lparr>cells = [JStr ''Carl'', JNum 2]\<rparr>,
                      \<lparr>cells = [JStr ''Bob'', JNum 3]\<rparr>]
       \<and> successively (\<lambda>a b. le_zero (sorters_number no_number (cell_value (shop_columns ! 1) a)
                                                                   (cell_value (shop_columns ! 1) b)))
            (rows ft'))"
proof -
  let ?c = "shop_columns ! 1"
  have h: "enabled (sorting (shop_committed 1 d))" "\<not> ajaxEnabled (shop_committed 1 d)"
    "deref (columns (shop_committed 1 d)) (o_column (sorting (shop_committed 1 d))) = Some ?c"
    "o_direction (sorting (shop_committed 1 d)) = Some d"
    "\<forall>r\<in>set (rows (shop_committed 1 d)). col_index ?c < length (cells r)"
    "consistent (sorter ?c) (map (cell_value ?c) (rows (shop_committed 1 d)))" for d
    using number_consistent [of no_number] price_values
    by (simp_all add: shop_committed_def shop_table_def deref_def shop_columns_def shop_rows_def)
  have srt: "sorter ?c = sorters_number no_number" unfolding price_column by simp
  have vs: "map (cell_value ?c) (rows (shop_committed 1 ''DESC'')) = [JNum 3, JNum 1, JNum 2]"
    using price_values by (simp add: shop_committed_def shop_table_def)
  from predraw_sorted [OF h(1-4) _ h(5,6), of "''DESC''"]
  obtain ft1 where p1: "predraw (shop_committed 1 ''DESC'') = Inr ft1"
    and r1: "rows ft1 = array_sort (\<lambda>a b. nan_as_zero (sorter ?c (cell_value ?c b) (cell_value ?c a)))
                          (rows (shop_committed 1 ''DESC''))"
    and s1: "successively (\<lambda>a b. ge_zero (sorter ?c (cell_value ?c a) (cell_value ?c b))) (rows ft1)"
    by auto
  from predraw_sorted [OF h(1-4) _ h(5,6), of "''ASC''"]
  obtain ft2 where p2: "predraw (shop_committed 1 ''ASC'') = Inr ft2"
    and r2: "rows ft2 = array_sort (\<lambda>a b. nan_as_zero (sorter ?c (cell_value ?c a) (cell_value ?c b)))
                          (rows (shop_committed 1 ''ASC''))"
    and s2: "successively (\<lambda>a b. le_zero (sorter ?c (cell_value ?c a) (cell_value ?c b))) (rows ft2)"
    by auto
  from r1 have r1': "rows ft1 = [\<lparr>cells = [JStr ''Bob'', JNum 3]\<rparr>, \<lparr>cells = [JStr ''Carl'', JNum 2]\<rparr>,
                      \<lparr>cells = [JStr ''alice'', JNum 1]\<rparr>]"
    unfolding price_column
    by (simp add: cell_value_def shop_committed_def shop_table_def shop_rows_def
        sorters_number_def round_double_exact nan_as_zero_def)
  from r2 have r2': "rows ft2 = [\<lparr>cells = [JStr ''alice'', JNum 1]\<rparr>, \<lparr>cells = [JStr ''Carl'', JNum 2]\<rparr>,
                      \<lparr>cells = [JStr ''Bob'', JNum 3]\<rparr>]"
    unfolding price_column
    by (simp add: cell_value_def shop_committed_def shop_table_def shop_rows_def
        sorters_number_def round_double_exact nan_as_zero_def)
  show ?thesis
    by (intro conjI exI [of _ ft1] exI [of _ ft2])
       (rule h(1-4) vs p1 r1' p2 r2' s1 [unfolded srt] s2 [unfolded srt])+
qed

subsection \<open>The text sorter\<close>

lemma str_lt_lexord:
  "str_lt s t = ((map of_char s :: nat list, map of_char t) \<in> lexord {(x, y). x < y})"
  by (induction s t rule: str_lt.induct) auto

lemma lower_char_idem: "lower_char (lower_char c) = lower_char c"
proof -
  have m: "of_char (char_of (n + 32 :: nat)) = n + 32" if "n \<le> 222" for n
    using that by (simp add: of_char_of)
  show ?thesis
    by (auto simp: lower_char_def Let_def m)
qed

lemma toLowerCase_idem: "toLowerCase (toLowerCase s) = toLowerCase s"
  by (simp add: toLowerCase_def lower_char_idem)

lemma names_sorted:
  "on_result rows (sort_pub no_listener names_table (RefName ''v'') (JStr ''ASC''))
     = Inr [\<lparr>cells = [JStr ''alice'']\<rparr>, \<lparr>cells = [JStr ''Bob'']\<rparr>, \<lparr>cells = [JStr ''Carl'']\<rparr>]"
  by code_simp

text \<open>
  Claim C8. The text sorter returns \<open>-1\<close>, \<open>0\<close> or \<open>1\<close>. On two strings it compares their
  lower-case forms, code unit by code unit in lexicographic order; an operand that is not a
  string is compared as it is. A column whose definition has the type \<^verbatim>\<open>text\<close> and no sorter of
  its own gets the text sorter, whose result is never NaN, and sorting the rows Bob, alice, Carl ascending by such a column
  on local data gives alice, Bob, Carl.
\<close>

theorem text_sorter_sorts_names:
  "(sorters_text N a b = - 1 \<or> sorters_text N a b = 0 \<or> sorters_text N a b = 1)
   \<and> sorters_text N (JStr s) (JStr t) =
       (if toLowerCase s = toLowerCase t then 0
        else if (map of_char (toLowerCase s) :: nat list, map of_char (toLowerCase t))
                  \<in> lexord {(x, y). x < y} then - 1
        else 1)
   \<and> sorters_text N (JStr s) (JStr t) = sorters_text N (JStr (toLowerCase s)) (JStr (toLowerCase t))
   \<and> sorters_text N (JNum n) (JStr t) = (if js_lt N (JNum n) (JStr (toLowerCase t)) then - 1 else 1)
   \<and> sorters_text N (JNum n) (JNum m) = (if n = m then 0 else if n < m then - 1 else 1)
   \<and> sorter (ctor_column I N opts col \<lparr>def_sorter = None, def_type = ''text'', def_direction = dd,
                                       def_sortable = ds, def_sorted = dt\<rparr>)
       = number_valued (sorters_text N)
   \<and> on_result rows (sort_pub no_listener names_table (RefName ''v'') (JStr ''ASC''))
       = Inr [\<lparr>cells = [JStr ''alice'']\<rparr>, \<lparr>cells = [JStr ''Bob'']\<rparr>, \<lparr>cells = [JStr ''Carl'']\<rparr>]"
proof -
  have a: "sorters_text N a b = - 1 \<or> sorters_text N a b = 0 \<or> sorters_text N a b = 1"
    by (simp add: sorters_text_def Let_def)
  have b: "sorters_text N (JStr s) (JStr t) =
       (if toLowerCase s = toLowerCase t then 0
        else if (map of_char (toLowerCase s) :: nat list, map of_char (toLowerCase t))
                  \<in> lexord {(x, y). x < y} then - 1
        else 1)"
    by (simp add: sorters_text_def Let_def str_lt_lexord)
  have i: "sorters_text N (JStr s) (JStr t)
             = sorters_text N (JStr (toLowerCase s)) (JStr (toLowerCase t))"
    by (simp add: sorters_text_def Let_def toLowerCase_idem)
  have c: "sorters_text N (JNum n) (JStr t)
             = (if js_lt N (JNum n) (JStr (toLowerCase t)) then - 1 else 1)"
    by (simp add: sorters_text_def Let_def)
  have d: "sorters_text N (JNum n) (JNum m) = (if n = m then 0 else if n < m then - 1 else 1)"
    by (simp add: sorters_text_def Let_def)
  have e: "sorter (ctor_column I N opts col \<lparr>def_sorter = None, def_type = ''text'',
              def_direction = dd, def_sortable = ds, def_sorted = dt\<rparr>)
             = number_valued (sorters_text N)"
    by (simp add: ctor_column_def sorters_def Let_def)
  from a b i c d e names_sorted show ?thesis by blast
qed

subsection \<open>The marks a click leaves on the header\<close>

lemma draw_marks:
  assumes "enabled (sorting ft)" and "o_column (sorting ft) = Some p" and "p < length (columns ft)"
    and "o_direction (sorting ft) = Some d" and "d = ''ASC'' \<or> d = ''DESC''"
    and "''footable-sortable'' \<in> set (el_classes (columns ft ! p))"
  shows "length (columns (draw ft)) = length (columns ft)
         \<and> (''footable-asc'' \<in> set (el_classes (columns (draw ft) ! p))) = (d = ''ASC'')
         \<and> (''footable-desc'' \<in> set (el_classes (columns (draw ft) ! p))) = (d = ''DESC'')
         \<and> ''footable-sortable'' \<in> set (el_classes (columns (draw ft) ! p))"
  using assms
  by (auto simp: draw_def truthy_direction_def Let_def clear_marks_def mark_active_def
      addClass_def removeClass_def)

text \<open>
  After a click that completes on local data, with sorting enabled and no listener interfering,
  the clicked header carries the mark of the direction the click asked for and not the other
  mark: this is the state the next click reads.
\<close>

lemma click_marks_header:
  assumes en: "enabled (sorting ft)"
    and p: "p < length (columns ft)"
    and sortable: "''footable-sortable'' \<in> set (el_classes (columns ft ! p))"
    and idx: "columns_get (columns ft) (RefIndex (int (col_index (columns ft ! p)))) = Some p"
    and L: "\<And>srt. L srt = (False, srt)"
    and res: "click L p (Inr ft) = Inr ft'"
  shows "(''footable-asc'' \<in> set (el_classes (columns ft' ! p)))
           = (clicked_direction (el_classes (columns ft ! p)) = ''ASC'')
         \<and> (''footable-desc'' \<in> set (el_classes (columns ft' ! p)))
           = (clicked_direction (el_classes (columns ft ! p)) = ''DESC'')
         \<and> ''footable-sortable'' \<in> set (el_classes (columns ft' ! p))
         \<and> direction (columns ft' ! p) = Some (clicked_direction (el_classes (columns ft ! p)))"
proof -
  let ?d = "clicked_direction (el_classes (columns ft ! p))"
  let ?col = "RefIndex (int (col_index (columns ft ! p)))"
  let ?rq = "new_sorter ft ?col (JStr ?d)"
  let ?ft1 = "ft\<lparr>raised := raised ft @ [change_ft_sorting ?rq]\<rparr>"
  let ?ft2 = "?ft1\<lparr>sorting := (sorting ?ft1)
                 \<lparr>o_column := columns_get (columns ?ft1) (sorter_column ?rq),
                  o_direction := Some (direction_priv (sorter_direction ?rq))\<rparr>\<rparr>"
  have dd: "?d = ''ASC'' \<or> ?d = ''DESC''" by (simp add: clicked_direction_def)
  then have dp: "direction_priv (sorter_direction ?rq) = ?d"
    by (auto simp: new_sorter_def direction_priv_def)
  have cg: "columns_get (columns ?ft1) (sorter_column ?rq) = Some p"
    using columns_get_as_ref [of "columns ft" ?col] idx by (simp add: new_sorter_def)
  from res p sortable have sp: "sort_priv L ft ?col (JStr ?d) True = Inr ft'"
    by (simp add: click_def onSortClicked_def header_of_def)
  define r where "r = update ?ft2"
  from sp have "(case r of
                    Inl e \<Rightarrow> Inl e
                  | Inr ft3 \<Rightarrow>
                      Inr (ft3\<lparr>columns := each_direction (o_column (sorting ft3))
                                             (o_direction (sorting ft3)) 0 (columns ft3),
                               raised := raised ft3 @ [changed_ft_sorting ?rq]\<rparr>)) = Inr ft'"
    unfolding sort_priv_def Let_def L r_def by (simp only: prod.case bool.case if_True)
  then obtain ft3 where u0: "r = Inr ft3"
    and f: "ft' = ft3\<lparr>columns := each_direction (o_column (sorting ft3))
                                   (o_direction (sorting ft3)) 0 (columns ft3),
                     raised := raised ft3 @ [changed_ft_sorting ?rq]\<rparr>"
    by (cases r) auto
  from u0 have u: "update ?ft2 = Inr ft3" by (simp only: r_def)
  then obtain fa fb where a: "fa = ?ft2 \<or> (\<exists>data. fa = ?ft2\<lparr>requests := requests ?ft2 @ [data]\<rparr>)"
    and b: "predraw fa = Inr fb" and c: "ft3 = draw fb"
    by (auto simp: update_def split: if_splits sum.splits)
  from a cg dp have fa: "sorting fa = (sorting ft)\<lparr>o_column := Some p, o_direction := Some ?d\<rparr>
      \<and> columns fa = columns ft"
    by auto
  from predraw_frame [OF b] fa have fb: "sorting fb = (sorting ft)\<lparr>o_column := Some p,
      o_direction := Some ?d\<rparr> \<and> columns fb = columns ft"
    by simp
  from fb en p sortable dd have pre: "enabled (sorting fb)" "o_column (sorting fb) = Some p"
    "p < length (columns fb)" "o_direction (sorting fb) = Some ?d"
    "''footable-sortable'' \<in> set (el_classes (columns fb ! p))"
    by simp_all
  from draw_marks [OF pre(1-4) dd pre(5)] c fb
  have m: "length (columns ft3) = length (columns ft)
         \<and> (''footable-asc'' \<in> set (el_classes (columns ft3 ! p))) = (?d = ''ASC'')
         \<and> (''footable-desc'' \<in> set (el_classes (columns ft3 ! p))) = (?d = ''DESC'')
         \<and> ''footable-sortable'' \<in> set (el_classes (columns ft3 ! p))"
    by simp
  from c draw_frame [of fb] fb have s3: "o_column (sorting ft3) = Some p"
    "o_direction (sorting ft3) = Some ?d"
    by simp_all
  from m p have p3: "p < length (columns ft3)" by simp
  from f s3 each_direction_nth [OF p3, of "Some p" "Some ?d" 0]
  have e: "columns ft' ! p = (columns ft3 ! p)\<lparr>direction := Some ?d\<rparr>"
    by simp
  from e m show ?thesis by simp
qed

text \<open>
  Three clicks on the header of the first column of the shop table: the header is marked
  ascending, then descending, then ascending again, and the other header is never marked.
\<close>

lemma click_cycle:
  "on_result (map el_classes \<circ> columns) (click no_listener 0 (Inr (shop_table True False)))
     = Inr [[''footable-sortable'', ''footable-asc''], [''footable-sortable'']]
   \<and> on_result (map el_classes \<circ> columns)
         (click no_listener 0 (click no_listener 0 (Inr (shop_table True False))))
     = Inr [[''footable-sortable'', ''footable-desc''], [''footable-sortable'']]
   \<and> on_result (map el_classes \<circ> columns)
         (click no_listener 0 (click no_listener 0 (click no_listener 0 (Inr (shop_table True False)))))
     = Inr [[''footable-sortable'', ''footable-asc''], [''footable-sortable'']]
   \<and> on_result (map direction \<circ> columns)
         (click no_listener 0 (click no_listener 0 (Inr (shop_table True False))))
     = Inr [Some ''DESC'', None]"
  by code_simp

end
